theory Spec2Isabelle
  imports Complex_Main "HOL-Library.Word" "HOL-Library.AList" "HOL-Library.Char_ord"
    "HOL-Library.List_Lexorder"
begin

section \<open>Values stored in a configuration\<close>

text \<open>
  The Go source declares \<^verbatim>\<open>type Value interface{}\<close> and
  \<^verbatim>\<open>type Config map[string]Value\<close>.  A \<open>Value\<close> is modelled by its dynamic
  type and content.  The variants are the dynamic types the source mentions or
  that \<^verbatim>\<open>encoding/json\<close> stores into an \<^verbatim>\<open>interface{}\<close>: the nil interface,
  \<^verbatim>\<open>bool\<close>, \<^verbatim>\<open>float64\<close>, \<^verbatim>\<open>string\<close>, \<^verbatim>\<open>[]interface{}\<close>,
  \<^verbatim>\<open>map[string]interface{}\<close>, and the native \<^verbatim>\<open>int64\<close> and \<^verbatim>\<open>uint64\<close> that
  \<^verbatim>\<open>GetRequiredInt64\<close> and \<^verbatim>\<open>GetRequiredUint64\<close> switch on.

  A \<^verbatim>\<open>float64\<close> is modelled by its sign, its significand and its binary
  exponent: \<open>Float64 sg m e\<close> denotes \<open>\<plusminus> m \<sqdot> 2\<^sup>e\<close>.  The binary64 numbers are
  those with \<open>m < 2\<^sup>5\<^sup>3\<close> and \<open>- 1074 \<le> e \<le> 971\<close>, where \<open>m < 2\<^sup>5\<^sup>2\<close> only
  for \<open>e = - 1074\<close> (zero and the subnormal numbers).
\<close>

datatype float64 =
    Float64 (sign: bool) (significand: int) (exponent: int)
  | Inf bool
  | NaN

definition pow2 :: "int \<Rightarrow> rat" where
  "pow2 e = (if 0 \<le> e then 2 ^ nat e else 1 / 2 ^ nat (- e))"

definition float64_value :: "float64 \<Rightarrow> rat" where
  "float64_value f = (if sign f then - 1 else 1) * (of_int (significand f) * pow2 (exponent f))"

definition is_binary64 :: "float64 \<Rightarrow> bool" where
  "is_binary64 f = (case f of
      Float64 sg m e \<Rightarrow> 0 \<le> m \<and> m < 2 ^ 53 \<and> - 1074 \<le> e \<and> e \<le> 971 \<and> (m < 2 ^ 52 \<longrightarrow> e = - 1074)
    | _ \<Rightarrow> True)"

datatype Value =
    is_nil: VNil
  | is_bool: VBool bool
  | is_float64: VFloat64 float64
  | is_int64: VInt64 "64 word"
  | is_uint64: VUint64 "64 word"
  | is_string: VString string
  | is_slice: VSlice "Value list"
  | is_map: VMap "(string \<times> Value) list"

text \<open>
  A Go map is nil or a table of entries.  The entries are kept as an association
  list read through \<open>map_of\<close>; the order of the list stands for the iteration
  order, which Go leaves unspecified.
\<close>

type_synonym Config = "(string \<times> Value) list option"

datatype error =
    ErrNoSuchKey
  | SyntaxError
  | UnmarshalTypeError
  | UnsupportedValueError
  | IOError

datatype panic = TypeAssertion | NilMapAssignment

text \<open>
  A call returns, panics, or ends the process through \<^verbatim>\<open>os.Exit\<close>.
\<close>

datatype 'a outcome = Returns 'a | Panics panic | Exits int

text \<open>
  Modelled from the spec: the package \<^verbatim>\<open>github.com/0xrawsec/golang-utils/log\<close> is
  not among the sources.  The spec calls what \<^verbatim>\<open>log.Errorf\<close> and \<^verbatim>\<open>log.Debugf\<close>
  do "emitting a diagnostic" into "a diagnostic sink".  The sink is a list of
  entries, each the format string and the arguments of one call.
\<close>

datatype log_entry = Errorf string "Value list" | Debugf string "Value list"

record state =
  store :: Config
  sink :: "log_entry list"

definition bind :: "'a outcome \<times> state \<Rightarrow> ('a \<Rightarrow> state \<Rightarrow> 'b outcome \<times> state) \<Rightarrow> 'b outcome \<times> state" where
  "bind r f = (case r of
      (Returns x, s) \<Rightarrow> f x s
    | (Panics p, s) \<Rightarrow> (Panics p, s)
    | (Exits n, s) \<Rightarrow> (Exits n, s))"

section \<open>Conversion of float64 to the 64-bit integers\<close>

text \<open>
  Go discards the fraction (truncation towards zero).  When the truncated value
  does not fit the result type, or the operand is an infinity or a NaN, the
  conversion succeeds with an implementation-dependent value: that value is a
  parameter of the model.
\<close>

record arch =
  int64_of_unfit :: "float64 \<Rightarrow> 64 word"
  uint64_of_unfit :: "float64 \<Rightarrow> 64 word"

text \<open>The magnitude with the fraction discarded.\<close>

definition trunc_magnitude :: "int \<Rightarrow> int \<Rightarrow> int" where
  "trunc_magnitude m e = (if 0 \<le> e then m * 2 ^ nat e else m div 2 ^ nat (- e))"

definition int64_of_float64 :: "arch \<Rightarrow> float64 \<Rightarrow> 64 word" where
  "int64_of_float64 A f = (case f of
      Float64 sg m e \<Rightarrow>
        if sg then
          (if trunc_magnitude m e \<le> 2 ^ 63 then word_of_int (- trunc_magnitude m e)
           else int64_of_unfit A f)
        else
          (if trunc_magnitude m e < 2 ^ 63 then word_of_int (trunc_magnitude m e)
           else int64_of_unfit A f)
    | _ \<Rightarrow> int64_of_unfit A f)"

definition uint64_of_float64 :: "arch \<Rightarrow> float64 \<Rightarrow> 64 word" where
  "uint64_of_float64 A f = (case f of
      Float64 sg m e \<Rightarrow>
        if sg then
          (if trunc_magnitude m e = 0 then 0 else uint64_of_unfit A f)
        else
          (if trunc_magnitude m e < 2 ^ 64 then word_of_int (trunc_magnitude m e)
           else uint64_of_unfit A f)
    | _ \<Rightarrow> uint64_of_unfit A f)"

text \<open>
  On amd64 the compiled conversion to \<^verbatim>\<open>int64\<close> yields the "integer indefinite"
  value \<open>0x8000000000000000\<close> for every operand that does not fit.  The conversion
  to \<^verbatim>\<open>uint64\<close> is built from it: an operand below \<open>2\<^sup>6\<^sup>3\<close> is converted as
  to \<^verbatim>\<open>int64\<close>, so that a negative operand yields the two's complement of its
  truncation where that fits \<^verbatim>\<open>int64\<close>; every other operand that does not fit
  yields \<open>0x8000000000000000\<close>.
\<close>

definition amd64 :: arch where
  "amd64 = \<lparr> int64_of_unfit = (\<lambda>f. 0x8000000000000000),
             uint64_of_unfit = (\<lambda>f. case f of
                 Float64 sg m e \<Rightarrow>
                   if sg \<and> trunc_magnitude m e \<le> 2 ^ 63 then word_of_int (- trunc_magnitude m e)
                   else 0x8000000000000000
               | _ \<Rightarrow> 0x8000000000000000) \<rparr>"

section \<open>JSON text\<close>

definition is_space :: "char \<Rightarrow> bool" where
  "is_space c = (c = CHR '' '' \<or> c = CHR 0x09 \<or> c = CHR 0x0A \<or> c = CHR 0x0D)"

definition is_digit :: "char \<Rightarrow> bool" where
  "is_digit c = (48 \<le> (of_char c :: nat) \<and> (of_char c :: nat) \<le> 57)"

definition is_hex :: "char \<Rightarrow> bool" where
  "is_hex c = (is_digit c \<or> (97 \<le> (of_char c :: nat) \<and> (of_char c :: nat) \<le> 102)
      \<or> (65 \<le> (of_char c :: nat) \<and> (of_char c :: nat) \<le> 70))"

definition hex_val :: "char \<Rightarrow> nat" where
  "hex_val c = (if is_digit c then of_char c - 48
                else if 97 \<le> (of_char c :: nat) then of_char c - 87
                else of_char c - 55)"

definition backslash :: char where
  "backslash = CHR 0x5C"

definition dquote :: char where
  "dquote = CHR 0x22"

fun scan_string :: "string \<Rightarrow> (string \<times> string) option" where
  "scan_string [] = None"
| "scan_string (c # cs) =
    (if c = dquote then Some ([], cs)
     else if c = backslash then
       (case cs of
          [] \<Rightarrow> None
        | e # cs1 \<Rightarrow>
            if e \<in> set [dquote, backslash, CHR ''/'', CHR ''b'', CHR ''f'', CHR ''n'', CHR ''r'', CHR ''t''] then
              map_option (\<lambda>(body, rest). (c # e # body, rest)) (scan_string cs1)
            else if e = CHR ''u'' then
              (case cs1 of
                 h1 # h2 # h3 # h4 # cs2 \<Rightarrow>
                   if is_hex h1 \<and> is_hex h2 \<and> is_hex h3 \<and> is_hex h4 then
                     map_option (\<lambda>(body, rest). (c # e # h1 # h2 # h3 # h4 # body, rest)) (scan_string cs2)
                   else None
               | _ \<Rightarrow> None)
            else None)
     else if (of_char c :: nat) < 0x20 then None
     else map_option (\<lambda>(body, rest). (c # body, rest)) (scan_string cs))"


subsection \<open>UTF-8\<close>

definition cont :: "char \<Rightarrow> bool" where
  "cont c = (0x80 \<le> (of_char c :: nat) \<and> (of_char c :: nat) \<le> 0xBF)"

definition second_ok :: "nat \<Rightarrow> char \<Rightarrow> bool" where
  "second_ok b c = (let x = (of_char c :: nat) in
     if b = 0xE0 then 0xA0 \<le> x \<and> x \<le> 0xBF
     else if b = 0xED then 0x80 \<le> x \<and> x \<le> 0x9F
     else if b = 0xF0 then 0x90 \<le> x \<and> x \<le> 0xBF
     else if b = 0xF4 then 0x80 \<le> x \<and> x \<le> 0x8F
     else 0x80 \<le> x \<and> x \<le> 0xBF)"

text \<open>
  The size that \<^verbatim>\<open>utf8.DecodeRune\<close> reports for the encoding at the head of the
  bytes, and 0 where it reports \<^verbatim>\<open>(RuneError, 1)\<close> for a malformed one.
\<close>

fun rune_len :: "string \<Rightarrow> nat" where
  "rune_len [] = 0"
| "rune_len (c # cs) = (let b = (of_char c :: nat) in
     if b < 0x80 then 1
     else if 0xC2 \<le> b \<and> b \<le> 0xDF then
       (case cs of c1 # _ \<Rightarrow> if cont c1 then 2 else 0 | _ \<Rightarrow> 0)
     else if 0xE0 \<le> b \<and> b \<le> 0xEF then
       (case cs of c1 # c2 # _ \<Rightarrow> if second_ok b c1 \<and> cont c2 then 3 else 0 | _ \<Rightarrow> 0)
     else if 0xF0 \<le> b \<and> b \<le> 0xF4 then
       (case cs of c1 # c2 # c3 # _ \<Rightarrow> if second_ok b c1 \<and> cont c2 \<and> cont c3 then 4 else 0 | _ \<Rightarrow> 0)
     else 0)"

definition replacement :: string where
  "replacement = [CHR 0xEF, CHR 0xBF, CHR 0xBD]"

text \<open>\<^verbatim>\<open>utf8.EncodeRune\<close>: surrogates and values beyond U+10FFFF become U+FFFD.\<close>

definition encode_rune :: "nat \<Rightarrow> string" where
  "encode_rune r =
    (if r < 0x80 then [char_of r]
     else if r < 0x800 then [char_of (0xC0 + r div 64), char_of (0x80 + r mod 64)]
     else if (0xD800 \<le> r \<and> r \<le> 0xDFFF) \<or> 0x10FFFF < r then replacement
     else if r < 0x10000 then
       [char_of (0xE0 + r div 4096), char_of (0x80 + r div 64 mod 64), char_of (0x80 + r mod 64)]
     else
       [char_of (0xF0 + r div 262144), char_of (0x80 + r div 4096 mod 64),
        char_of (0x80 + r div 64 mod 64), char_of (0x80 + r mod 64)])"

text \<open>\<^verbatim>\<open>getu4\<close>: the value of a leading \<^verbatim>\<open>\uXXXX\<close>.\<close>

definition getu4 :: "string \<Rightarrow> nat option" where
  "getu4 s = (case s of
      c # u # h1 # h2 # h3 # h4 # _ \<Rightarrow>
        if c = backslash \<and> u = CHR ''u'' \<and> is_hex h1 \<and> is_hex h2 \<and> is_hex h3 \<and> is_hex h4
        then Some (((hex_val h1 * 16 + hex_val h2) * 16 + hex_val h3) * 16 + hex_val h4)
        else None
    | _ \<Rightarrow> None)"

definition unescape :: "char \<Rightarrow> char" where
  "unescape e = (if e = CHR ''b'' then CHR 0x08 else if e = CHR ''f'' then CHR 0x0C
     else if e = CHR ''n'' then CHR 0x0A else if e = CHR ''r'' then CHR 0x0D
     else if e = CHR ''t'' then CHR 0x09 else e)"

text \<open>
  \<^verbatim>\<open>unquote\<close> on the body of a string literal that the scanner has accepted:
  escapes are replaced, a surrogate pair of two \<^verbatim>\<open>\u\<close> escapes is combined, a
  lone surrogate and every malformed byte become U+FFFD.
\<close>

function unquote :: "string \<Rightarrow> string" where
  "unquote [] = []"
| "unquote (c # cs) =
    (if c = backslash then
       (case cs of
          [] \<Rightarrow> []
        | e # cs1 \<Rightarrow>
            if e = CHR ''u'' then
              (case getu4 (c # cs) of
                 None \<Rightarrow> []
               | Some rr \<Rightarrow>
                   if 0xD800 \<le> rr \<and> rr \<le> 0xDFFF then
                     (case getu4 (drop 4 cs1) of
                        None \<Rightarrow> replacement @ unquote (drop 4 cs1)
                      | Some rr1 \<Rightarrow>
                          if rr \<le> 0xDBFF \<and> 0xDC00 \<le> rr1 \<and> rr1 \<le> 0xDFFF then
                            encode_rune ((rr - 0xD800) * 1024 + (rr1 - 0xDC00) + 0x10000)
                              @ unquote (drop 10 cs1)
                          else replacement @ unquote (drop 4 cs1))
                   else encode_rune rr @ unquote (drop 4 cs1))
            else unescape e # unquote cs1)
     else if (of_char c :: nat) < 0x80 then c # unquote cs
     else if rune_len (c # cs) = 0 then replacement @ unquote cs
     else take (rune_len (c # cs)) (c # cs) @ unquote (drop (rune_len (c # cs)) (c # cs)))"
  by pat_completeness auto
termination
  by (relation "measure length") auto


subsection \<open>Numbers\<close>

datatype number = Number (num_neg: bool) (num_int: string) (num_frac: string) (num_exp: int)

definition digits_val :: "string \<Rightarrow> int" where
  "digits_val ds = foldl (\<lambda>n c. 10 * n + (of_char c - 48)) 0 ds"

definition scan_int :: "string \<Rightarrow> (string \<times> string) option" where
  "scan_int s = (case s of
      [] \<Rightarrow> None
    | c # cs \<Rightarrow>
        if c = CHR ''0'' then Some ([c], cs)
        else if is_digit c then Some (c # takeWhile is_digit cs, dropWhile is_digit cs)
        else None)"

definition scan_frac :: "string \<Rightarrow> (string \<times> string) option" where
  "scan_frac s = (case s of
      [] \<Rightarrow> Some ([], s)
    | c # cs \<Rightarrow>
        if c = CHR ''.'' then
          (if takeWhile is_digit cs = [] then None
           else Some (takeWhile is_digit cs, dropWhile is_digit cs))
        else Some ([], s))"

definition scan_sign :: "string \<Rightarrow> bool \<times> string" where
  "scan_sign s = (case s of
      [] \<Rightarrow> (False, s)
    | c # cs \<Rightarrow> if c = CHR ''+'' then (False, cs) else if c = CHR ''-'' then (True, cs) else (False, s))"

definition scan_exp :: "string \<Rightarrow> (int \<times> string) option" where
  "scan_exp s = (case s of
      [] \<Rightarrow> Some (0, s)
    | c # cs \<Rightarrow>
        if c = CHR ''e'' \<or> c = CHR ''E'' then
          (case scan_sign cs of (ng, ds) \<Rightarrow>
             if takeWhile is_digit ds = [] then None
             else Some ((if ng then - digits_val (takeWhile is_digit ds)
                         else digits_val (takeWhile is_digit ds)),
                        dropWhile is_digit ds))
        else Some (0, s))"

definition scan_number :: "string \<Rightarrow> (number \<times> string) option" where
  "scan_number s =
    (case (case s of [] \<Rightarrow> (False, s) | c # cs \<Rightarrow> if c = CHR ''-'' then (True, cs) else (False, s)) of
       (ng, s0) \<Rightarrow>
        (case scan_int s0 of
           None \<Rightarrow> None
         | Some (ip, s1) \<Rightarrow>
            (case scan_frac s1 of
               None \<Rightarrow> None
             | Some (fp, s2) \<Rightarrow>
                (case scan_exp s2 of
                   None \<Rightarrow> None
                 | Some (ex, s3) \<Rightarrow> Some (Number ng ip fp ex, s3)))))"

subsection \<open>Rounding a decimal to binary64\<close>

function bit_length :: "int \<Rightarrow> nat" where
  "bit_length n = (if n \<le> 0 then 0 else Suc (bit_length (n div 2)))"
  by pat_completeness auto
termination
  by (relation "measure nat") auto

declare bit_length.simps [simp del]

text \<open>
  The decimal \<open>d \<sqdot> 10\<^sup>k\<close> as a fraction of two positive integers.
\<close>

definition decimal_num :: "int \<Rightarrow> int \<Rightarrow> int" where
  "decimal_num d k = (if 0 \<le> k then d * 10 ^ nat k else d)"

definition decimal_den :: "int \<Rightarrow> int" where
  "decimal_den k = (if 0 \<le> k then 1 else 10 ^ nat (- k))"

text \<open>The integer \<open>e\<close> with \<open>2\<^sup>e \<le> n / d < 2\<^sup>e\<^sup>+\<^sup>1\<close>, for positive \<open>n\<close> and \<open>d\<close>.\<close>

definition pow2_le :: "int \<Rightarrow> int \<Rightarrow> int \<Rightarrow> bool" where
  "pow2_le e n d = (if 0 \<le> e then d * 2 ^ nat e \<le> n else d \<le> n * 2 ^ nat (- e))"

definition ilog2 :: "int \<Rightarrow> int \<Rightarrow> int" where
  "ilog2 n d =
     (if pow2_le (int (bit_length n) - int (bit_length d)) n d
      then int (bit_length n) - int (bit_length d)
      else int (bit_length n) - int (bit_length d) - 1)"

text \<open>The integer nearest to \<open>n / d\<close>, the even one of two equally near.\<close>

definition round_half_even :: "int \<Rightarrow> int \<Rightarrow> int" where
  "round_half_even n d =
    (if 2 * (n mod d) < d then n div d
     else if d < 2 * (n mod d) then n div d + 1
     else if even (n div d) then n div d else n div d + 1)"

text \<open>The significand of \<open>n / d\<close> at the binary exponent \<open>p\<close>.\<close>

definition significand_at :: "int \<Rightarrow> int \<Rightarrow> int \<Rightarrow> int" where
  "significand_at n d p =
     (if 0 \<le> p then round_half_even n (d * 2 ^ nat p) else round_half_even (n * 2 ^ nat (- p)) d)"

text \<open>
  \<^verbatim>\<open>strconv.ParseFloat(s, 64)\<close> on the decimal of sign \<open>ng\<close> and magnitude
  \<open>d \<sqdot> 10\<^sup>k\<close>: the nearest binary64 number, ties to the even significand.
  \<open>None\<close> is the range error, reported when the rounded magnitude is beyond the
  largest binary64 number.
\<close>

definition round_float64 :: "bool \<Rightarrow> int \<Rightarrow> int \<Rightarrow> float64 option" where
  "round_float64 ng d k =
    (if d \<le> 0 then Some (Float64 ng 0 (- 1074))
     else
       (let n = decimal_num d k;
            dn = decimal_den k;
            p = max (ilog2 n dn - 52) (- 1074);
            m = significand_at n dn p
        in if m = 2 ^ 53 then (if 971 \<le> p then None else Some (Float64 ng (2 ^ 52) (p + 1)))
           else if 971 < p then None
           else if m < 2 ^ 52 then Some (Float64 ng m (- 1074))
           else Some (Float64 ng m p)))"

definition number_float64 :: "number \<Rightarrow> float64 option" where
  "number_float64 x = round_float64 (num_neg x) (digits_val (num_int x @ num_frac x))
     (num_exp x - int (length (num_frac x)))"

subsection \<open>Tokens\<close>

datatype token =
    TLBrace | TRBrace | TLBracket | TRBracket | TColon | TComma
  | TStr string | TNum number | TTrue | TFalse | TNull

lemma scan_string_length: "scan_string s = Some (body, rest) \<Longrightarrow> length rest < length s"
proof (induction s arbitrary: body rest rule: scan_string.induct)
  case 1
  then show ?case by simp
next
  case (2 c cs)
  then show ?case
    by (fastforce split: if_splits list.splits simp del: set_simps)
qed

lemma length_dropWhile_less: "length (dropWhile P xs) < Suc (length xs)"
  by (simp add: length_dropWhile_le le_imp_less_Suc)

lemma scan_int_length: "scan_int s = Some (ip, rest) \<Longrightarrow> length rest < length s"
  by (auto simp: scan_int_def length_dropWhile_less split: list.splits if_splits)

lemma scan_frac_length: "scan_frac s = Some (fp, rest) \<Longrightarrow> length rest \<le> length s"
  by (auto simp: scan_frac_def le_SucI length_dropWhile_le split: list.splits if_splits)

lemma scan_sign_length: "scan_sign s = (ng, rest) \<Longrightarrow> length rest \<le> length s"
  by (auto simp: scan_sign_def split: list.splits if_splits)

lemma scan_exp_length: "scan_exp s = Some (ex, rest) \<Longrightarrow> length rest \<le> length s"
  by (auto simp: scan_exp_def split: list.splits if_splits prod.splits
      dest!: scan_sign_length intro: le_SucI order_trans [OF length_dropWhile_le])

lemma scan_number_length: "scan_number s = Some (x, rest) \<Longrightarrow> length rest < length s"
  by (auto simp: scan_number_def split: list.splits if_splits option.splits prod.splits
      dest!: scan_int_length scan_frac_length scan_exp_length)

text \<open>
  The token that starts with the byte \<open>c\<close>, which is not white space, and the
  bytes that follow it.
\<close>

definition next_token :: "char \<Rightarrow> string \<Rightarrow> (token \<times> string) option" where
  "next_token c cs =
    (if c = CHR ''{'' then Some (TLBrace, cs)
     else if c = CHR ''}'' then Some (TRBrace, cs)
     else if c = CHR ''['' then Some (TLBracket, cs)
     else if c = CHR '']'' then Some (TRBracket, cs)
     else if c = CHR '':'' then Some (TColon, cs)
     else if c = CHR '','' then Some (TComma, cs)
     else if c = dquote then
       (case scan_string cs of
          None \<Rightarrow> None
        | Some (body, rest) \<Rightarrow> Some (TStr (unquote body), rest))
     else if c = CHR ''-'' \<or> is_digit c then
       (case scan_number (c # cs) of
          None \<Rightarrow> None
        | Some (x, rest) \<Rightarrow> Some (TNum x, rest))
     else if c = CHR ''t'' then
       (if take 3 cs = ''rue'' then Some (TTrue, drop 3 cs) else None)
     else if c = CHR ''f'' then
       (if take 4 cs = ''alse'' then Some (TFalse, drop 4 cs) else None)
     else if c = CHR ''n'' then
       (if take 3 cs = ''ull'' then Some (TNull, drop 3 cs) else None)
     else None)"

lemma next_token_length: "next_token c cs = Some (t, rest) \<Longrightarrow> length rest \<le> length cs"
proof -
  assume h: "next_token c cs = Some (t, rest)"
  have str: "length rest \<le> length cs" if "scan_string cs = Some (body, rest)" for body
    using scan_string_length [OF that] by simp
  have num: "length rest \<le> length cs" if "scan_number (c # cs) = Some (x, rest)" for x
    using scan_number_length [OF that] by simp
  from h show ?thesis
    unfolding next_token_def
    by (simp split: if_split_asm option.split_asm prod.split_asm add: str num) auto
qed

function lex :: "string \<Rightarrow> token list option" where
  "lex [] = Some []"
| "lex (c # cs) =
    (if is_space c then lex cs
     else (case next_token c cs of
        None \<Rightarrow> None
      | Some (t, rest) \<Rightarrow> map_option ((#) t) (lex rest)))"
  by pat_completeness auto
termination
  by (relation "measure length") (auto dest: next_token_length)

subsection \<open>Documents\<close>

datatype json =
    JNull
  | JBool bool
  | JNumber number
  | JString string
  | JArray "json list"
  | is_object: JObject "(string \<times> json) list"

text \<open>
  The scanner keeps a stack of the containers that are open and knows what
  may come next: \<open>frame\<close> is one open container with what it holds so far,
  \<open>expect\<close> is the kind of token that may follow.  At most
  \<^verbatim>\<open>maxNestingDepth\<close> containers are open at a time: opening one more is a
  syntax error.
\<close>

definition maxNestingDepth :: nat where
  "maxNestingDepth = 10000"

datatype frame =
    FArray "json list"
  | FObject "(string \<times> json) list"
  | FMember "(string \<times> json) list" string

datatype expect = XValue | XValueOrClose | XKeyOrClose | XKey | XColon | XEnd | XDone json

fun push_value :: "json \<Rightarrow> frame list \<Rightarrow> (expect \<times> frame list) option" where
  "push_value v [] = Some (XDone v, [])"
| "push_value v (FArray vs # st) = Some (XEnd, FArray (vs @ [v]) # st)"
| "push_value v (FMember kvs k # st) = Some (XEnd, FObject (kvs @ [(k, v)]) # st)"
| "push_value v (FObject kvs # st) = None"

fun close_array :: "frame list \<Rightarrow> (expect \<times> frame list) option" where
  "close_array (FArray vs # st) = push_value (JArray vs) st"
| "close_array _ = None"

fun close_object :: "frame list \<Rightarrow> (expect \<times> frame list) option" where
  "close_object (FObject kvs # st) = push_value (JObject kvs) st"
| "close_object _ = None"

fun begin_key :: "string \<Rightarrow> frame list \<Rightarrow> (expect \<times> frame list) option" where
  "begin_key k (FObject kvs # st) = Some (XColon, FMember kvs k # st)"
| "begin_key k _ = None"

fun begin_value :: "token \<Rightarrow> frame list \<Rightarrow> (expect \<times> frame list) option" where
  "begin_value TLBrace st =
     (if length st < maxNestingDepth then Some (XKeyOrClose, FObject [] # st) else None)"
| "begin_value TLBracket st =
     (if length st < maxNestingDepth then Some (XValueOrClose, FArray [] # st) else None)"
| "begin_value (TStr x) st = push_value (JString x) st"
| "begin_value (TNum x) st = push_value (JNumber x) st"
| "begin_value TTrue st = push_value (JBool True) st"
| "begin_value TFalse st = push_value (JBool False) st"
| "begin_value TNull st = push_value JNull st"
| "begin_value _ st = None"

fun step :: "expect \<times> frame list \<Rightarrow> token \<Rightarrow> (expect \<times> frame list) option" where
  "step (XValue, st) t = begin_value t st"
| "step (XValueOrClose, st) t = (if t = TRBracket then close_array st else begin_value t st)"
| "step (XKeyOrClose, st) t =
     (case t of TStr k \<Rightarrow> begin_key k st | TRBrace \<Rightarrow> close_object st | _ \<Rightarrow> None)"
| "step (XKey, st) t = (case t of TStr k \<Rightarrow> begin_key k st | _ \<Rightarrow> None)"
| "step (XColon, st) t = (if t = TColon then Some (XValue, st) else None)"
| "step (XEnd, st) t =
     (case st of
        FArray vs # _ \<Rightarrow>
          if t = TComma then Some (XValue, st)
          else if t = TRBracket then close_array st else None
      | FObject kvs # _ \<Rightarrow>
          if t = TComma then Some (XKey, st)
          else if t = TRBrace then close_object st else None
      | _ \<Rightarrow> None)"
| "step (XDone v, st) t = None"

fun run :: "expect \<times> frame list \<Rightarrow> token list \<Rightarrow> (expect \<times> frame list) option" where
  "run c [] = Some c"
| "run c (t # ts) = (case step c t of None \<Rightarrow> None | Some c1 \<Rightarrow> run c1 ts)"

definition parse_tokens :: "token list \<Rightarrow> json option" where
  "parse_tokens ts = (case run (XValue, []) ts of
      Some (XDone v, _) \<Rightarrow> Some v
    | _ \<Rightarrow> None)"

definition json_parse :: "string \<Rightarrow> json option" where
  "json_parse data = (case lex data of None \<Rightarrow> None | Some ts \<Rightarrow> parse_tokens ts)"

subsection \<open>The grammar\<close>

text \<open>
  The grammar of JSON (RFC 8259), read over the bytes of the buffer and
  independent of the scanner.  \<open>value_text s j\<close> says that the bytes \<open>s\<close> are
  a value of the grammar, without white space around it, and that \<open>j\<close> is the
  document they denote; \<open>json_text\<close> is a value with white space around it.  A
  string literal may hold any byte from \<open>0x20\<close> on, also outside a well-formed
  UTF-8 encoding; its content is decoded by \<^verbatim>\<open>unquote\<close>.
\<close>

definition ws :: "string \<Rightarrow> bool" where
  "ws w = list_all is_space w"

definition digits :: "string \<Rightarrow> bool" where
  "digits ds = (ds \<noteq> [] \<and> list_all is_digit ds)"







text \<open>How many containers of a document are nested in one another.\<close>

fun max_list :: "nat list \<Rightarrow> nat" where
  "max_list [] = 0"
| "max_list (n # ns) = max n (max_list ns)"

fun depth :: "json \<Rightarrow> nat" where
  "depth (JArray js) = Suc (max_list (map depth js))"
| "depth (JObject ms) = Suc (max_list (map (\<lambda>m. depth (snd m)) ms))"
| "depth _ = 0"

text \<open>The tokens of a document.\<close>

fun tokens_of :: "json \<Rightarrow> token list"
  and elems_tokens :: "json list \<Rightarrow> token list"
  and members_tokens :: "(string \<times> json) list \<Rightarrow> token list"
where
  "tokens_of JNull = [TNull]"
| "tokens_of (JBool b) = [if b then TTrue else TFalse]"
| "tokens_of (JNumber x) = [TNum x]"
| "tokens_of (JString x) = [TStr x]"
| "tokens_of (JArray js) = TLBracket # elems_tokens js @ [TRBracket]"
| "tokens_of (JObject ms) = TLBrace # members_tokens ms @ [TRBrace]"
| "elems_tokens [] = []"
| "elems_tokens (j # js) = tokens_of j @ (if js = [] then [] else TComma # elems_tokens js)"
| "members_tokens [] = []"
| "members_tokens ((k, j) # ms) = TStr k # TColon # tokens_of j @ (if ms = [] then [] else TComma # members_tokens ms)"

subsection \<open>Decoding into interface values\<close>

text \<open>
  What \<^verbatim>\<open>encoding/json\<close> stores into an \<^verbatim>\<open>interface{}\<close>, with the first error it
  saved.  A number beyond the range of \<^verbatim>\<open>float64\<close> saves an
  \<^verbatim>\<open>UnmarshalTypeError\<close>, and decoding goes on.  What is stored for such a
  number differs between the releases of the library: the infinity that
  \<^verbatim>\<open>strconv.ParseFloat\<close> returns with its range error, or nil.  The infinity is
  stored here, and no statement below speaks of that value.  A repeated key
  overwrites the entry.
\<close>

definition first_error :: "error option \<Rightarrow> error option \<Rightarrow> error option" where
  "first_error e1 e2 = (case e1 of None \<Rightarrow> e2 | Some e \<Rightarrow> Some e)"

fun to_value :: "json \<Rightarrow> Value \<times> error option"
  and to_values :: "json list \<Rightarrow> Value list \<times> error option"
  and to_entries :: "(string \<times> json) list \<Rightarrow> (string \<times> Value) list \<Rightarrow> (string \<times> Value) list \<times> error option"
where
  "to_value JNull = (VNil, None)"
| "to_value (JBool b) = (VBool b, None)"
| "to_value (JNumber x) = (case number_float64 x of
      None \<Rightarrow> (VFloat64 (Inf (num_neg x)), Some UnmarshalTypeError)
    | Some f \<Rightarrow> (VFloat64 f, None))"
| "to_value (JString x) = (VString x, None)"
| "to_value (JArray js) = (case to_values js of (vs, e) \<Rightarrow> (VSlice vs, e))"
| "to_value (JObject ms) = (case to_entries ms [] of (kvs, e) \<Rightarrow> (VMap kvs, e))"
| "to_values [] = ([], None)"
| "to_values (j # js) = (case to_value j of (v, e1) \<Rightarrow>
      (case to_values js of (vs, e2) \<Rightarrow> (v # vs, first_error e1 e2)))"
| "to_entries [] m = (m, None)"
| "to_entries ((k, j) # ms) m = (case to_value j of (v, e1) \<Rightarrow>
      (case to_entries ms (AList.update k v m) of (m1, e2) \<Rightarrow> (m1, first_error e1 e2)))"


section \<open>Loading\<close>

text \<open>
  \<^verbatim>\<open>Loads\<close> hands the buffer and the nil \<^verbatim>\<open>Config\<close> \<open>c\<close> to \<^verbatim>\<open>json.Unmarshal\<close>.
  A buffer that is not JSON leaves \<open>c\<close> nil.  An object allocates the map and
  fills it.  The literal \<^verbatim>\<open>null\<close> sets a map to nil and is no error.  Every
  other value is an \<^verbatim>\<open>UnmarshalTypeError\<close>.
\<close>

definition Loads :: "string \<Rightarrow> Config \<times> error option" where
  "Loads data = (case json_parse data of
      None \<Rightarrow> (None, Some SyntaxError)
    | Some j \<Rightarrow> (case j of
          JObject ms \<Rightarrow> (case to_entries ms [] of (kvs, e) \<Rightarrow> (Some kvs, e))
        | JNull \<Rightarrow> (None, None)
        | _ \<Rightarrow> (None, Some UnmarshalTypeError)))"

text \<open>
  \<^verbatim>\<open>Load\<close> reads the file first; \<open>fs\<close> gives the content of the files that can
  be read.
\<close>

definition Load :: "(string \<Rightarrow> string option) \<Rightarrow> string \<Rightarrow> Config \<times> error option" where
  "Load fs path = (case fs path of
      None \<Rightarrow> (None, Some IOError)
    | Some data \<Rightarrow> Loads data)"

section \<open>Serialising\<close>

subsection \<open>Strings\<close>

definition hex_digit :: "nat \<Rightarrow> char" where
  "hex_digit n = (if n < 10 then char_of (48 + n) else char_of (87 + n))"

definition html_safe :: "char \<Rightarrow> bool" where
  "html_safe c = (0x20 \<le> (of_char c :: nat) \<and> c \<noteq> dquote \<and> c \<noteq> backslash
     \<and> c \<noteq> CHR ''<'' \<and> c \<noteq> CHR ''>'' \<and> c \<noteq> CHR ''&'')"

definition escape :: "char \<Rightarrow> string" where
  "escape c =
    (if c = backslash \<or> c = dquote then [backslash, c]
     else if c = CHR 0x08 then [backslash, CHR ''b'']
     else if c = CHR 0x0C then [backslash, CHR ''f'']
     else if c = CHR 0x0A then [backslash, CHR ''n'']
     else if c = CHR 0x0D then [backslash, CHR ''r'']
     else if c = CHR 0x09 then [backslash, CHR ''t'']
     else [backslash, CHR ''u'', CHR ''0'', CHR ''0'',
           hex_digit (of_char c div 16), hex_digit (of_char c mod 16)])"

text \<open>
  The encoder of \<^verbatim>\<open>json.Marshal\<close> for a string, with HTML escaping: a malformed
  byte is written as the three bytes of U+FFFD, U+2028 and U+2029 are escaped,
  every other well-formed encoding is copied.
\<close>

function quote_body :: "string \<Rightarrow> string" where
  "quote_body [] = []"
| "quote_body (c # cs) =
    (if (of_char c :: nat) < 0x80 then (if html_safe c then [c] else escape c) @ quote_body cs
     else if rune_len (c # cs) = 0 then replacement @ quote_body cs
     else if take 3 (c # cs) = [CHR 0xE2, CHR 0x80, CHR 0xA8] then
       backslash # ''u2028'' @ quote_body (drop 3 (c # cs))
     else if take 3 (c # cs) = [CHR 0xE2, CHR 0x80, CHR 0xA9] then
       backslash # ''u2029'' @ quote_body (drop 3 (c # cs))
     else take (rune_len (c # cs)) (c # cs) @ quote_body (drop (rune_len (c # cs)) (c # cs)))"
  by pat_completeness auto
termination
  by (relation "measure length") auto

definition quote :: "string \<Rightarrow> string" where
  "quote x = dquote # quote_body x @ [dquote]"

subsection \<open>Integers\<close>

function nat_digits :: "int \<Rightarrow> string" where
  "nat_digits n = (if n < 10 then [char_of (48 + n)]
                   else nat_digits (n div 10) @ [char_of (48 + n mod 10)])"
  by pat_completeness auto
termination
  by (relation "measure nat") auto

declare nat_digits.simps [simp del]

definition format_int :: "int \<Rightarrow> string" where
  "format_int n = (if n < 0 then CHR ''-'' # nat_digits (- n) else nat_digits n)"

subsection \<open>Floating-point numbers\<close>

text \<open>
  \<^verbatim>\<open>strconv.AppendFloat(b, f, fmt, -1, 64)\<close> writes the shortest decimal that
  parses back to \<open>f\<close>.  The exact decimal of \<open>m \<sqdot> 2\<^sup>e\<close> is \<open>exact_digits m e \<sqdot>
  10\<^sup>k\<close> with \<open>k = exact_exp e\<close>.  \<open>shortest j\<close> tries the decimals that drop the
  last \<open>j\<close> digits of it, rounded down and rounded up, the shorter ones first;
  where both parse back to \<open>f\<close> it takes the nearer one, the even one of two
  equally near.
\<close>

definition exact_digits :: "int \<Rightarrow> int \<Rightarrow> int" where
  "exact_digits m e = (if 0 \<le> e then m * 2 ^ nat e else m * 5 ^ nat (- e))"

definition exact_exp :: "int \<Rightarrow> int" where
  "exact_exp e = (if 0 \<le> e then 0 else e)"

fun shortest :: "nat \<Rightarrow> int \<Rightarrow> int \<Rightarrow> float64 \<Rightarrow> int \<times> int" where
  "shortest 0 d k f = (d, k)"
| "shortest (Suc j) d k f =
    (if round_float64 False (d div 10 ^ Suc j) (k + int (Suc j)) = Some f then
       (if round_float64 False (d div 10 ^ Suc j + 1) (k + int (Suc j)) = Some f then
          (if 2 * (d mod 10 ^ Suc j) < 10 ^ Suc j
              \<or> (2 * (d mod 10 ^ Suc j) = 10 ^ Suc j \<and> even (d div 10 ^ Suc j))
           then (d div 10 ^ Suc j, k + int (Suc j))
           else (d div 10 ^ Suc j + 1, k + int (Suc j)))
        else (d div 10 ^ Suc j, k + int (Suc j)))
     else if round_float64 False (d div 10 ^ Suc j + 1) (k + int (Suc j)) = Some f then
       (d div 10 ^ Suc j + 1, k + int (Suc j))
     else shortest j d k f)"

definition strip_zeros :: "string \<Rightarrow> string" where
  "strip_zeros ds = rev (dropWhile (\<lambda>c. c = CHR ''0'') (rev ds))"

text \<open>
  The formats \<^verbatim>\<open>%f\<close> and \<^verbatim>\<open>%e\<close> of the digits \<open>ds\<close> with the decimal point
  \<open>dp\<close> places after their start.
\<close>

definition fmt_f :: "string \<Rightarrow> int \<Rightarrow> string" where
  "fmt_f ds dp =
     (if 0 < dp then take (nat dp) ds @ replicate (nat dp - length ds) (CHR ''0'') else ''0'')
     @ (if dp < int (length ds)
        then CHR ''.'' # replicate (nat (- dp)) (CHR ''0'') @ drop (nat dp) ds else [])"

definition fmt_e :: "string \<Rightarrow> int \<Rightarrow> string" where
  "fmt_e ds dp =
     take 1 ds @ (if 1 < length ds then CHR ''.'' # drop 1 ds else [])
     @ [CHR ''e'', if dp - 1 < 0 then CHR ''-'' else CHR ''+'']
     @ (if \<bar>dp - 1\<bar> < 10 then CHR ''0'' # nat_digits \<bar>dp - 1\<bar> else nat_digits \<bar>dp - 1\<bar>)"

text \<open>The clean-up of \<^verbatim>\<open>e-09\<close> to \<^verbatim>\<open>e-9\<close> in the encoder.\<close>

definition clean_exp :: "string \<Rightarrow> string" where
  "clean_exp b =
     (if 4 \<le> length b \<and> b ! (length b - 4) = CHR ''e'' \<and> b ! (length b - 3) = CHR ''-''
         \<and> b ! (length b - 2) = CHR ''0''
      then take (length b - 2) b @ [b ! (length b - 1)] else b)"

text \<open>\<open>m \<sqdot> 2\<^sup>e < m' \<sqdot> 2\<^sup>e\<^sup>'\<close>\<close>

definition mag_less :: "int \<Rightarrow> int \<Rightarrow> int \<Rightarrow> int \<Rightarrow> bool" where
  "mag_less m e m' e' = (if e \<le> e' then m < m' * 2 ^ nat (e' - e) else m * 2 ^ nat (e - e') < m')"

text \<open>
  The encoder uses \<^verbatim>\<open>%e\<close> for magnitudes below \<^verbatim>\<open>1e-6\<close> and from \<^verbatim>\<open>1e21\<close>
  on, which are the binary64 numbers \<open>4722366482869645 \<sqdot> 2\<^sup>-\<^sup>7\<^sup>2\<close> and
  \<open>7625597484987 \<sqdot> 2\<^sup>2\<^sup>7 \<sqdot> 5\<^sup>0\<close>.
\<close>

definition uses_e :: "int \<Rightarrow> int \<Rightarrow> bool" where
  "uses_e m e = (mag_less m e 4722366482869645 (- 72) \<or> \<not> mag_less m e (10 ^ 21) 0)"

definition format_float64 :: "bool \<Rightarrow> int \<Rightarrow> int \<Rightarrow> string" where
  "format_float64 sg m e =
    (if sg then ''-'' else []) @
    (if m \<le> 0 then ''0''
     else (case shortest (length (nat_digits (exact_digits m e)) - 1)
                  (exact_digits m e) (exact_exp e) (Float64 False m e) of
        (c, k) \<Rightarrow>
          if uses_e m e
          then clean_exp (fmt_e (strip_zeros (nat_digits c)) (int (length (nat_digits c)) + k))
          else fmt_f (strip_zeros (nat_digits c)) (int (length (nat_digits c)) + k)))"

subsection \<open>Values\<close>

fun join :: "string list \<Rightarrow> string" where
  "join [] = []"
| "join [x] = x"
| "join (x # y # ys) = x @ CHR '','' # join (y # ys)"

text \<open>
  \<open>None\<close> is the \<^verbatim>\<open>UnsupportedValueError\<close> for an infinity or a NaN.  The
  entries of a map are written in the order of their keys.
\<close>

fun marshal :: "Value \<Rightarrow> string option"
  and marshal_elems :: "Value list \<Rightarrow> string list option"
  and marshal_entries :: "(string \<times> Value) list \<Rightarrow> (string \<times> string) list option"
where
  "marshal VNil = Some ''null''"
| "marshal (VBool b) = Some (if b then ''true'' else ''false'')"
| "marshal (VFloat64 f) = (case f of
      Float64 sg m e \<Rightarrow> Some (format_float64 sg m e)
    | _ \<Rightarrow> None)"
| "marshal (VInt64 n) = Some (format_int (sint n))"
| "marshal (VUint64 n) = Some (format_int (uint n))"
| "marshal (VString x) = Some (quote x)"
| "marshal (VSlice vs) = (case marshal_elems vs of
      None \<Rightarrow> None
    | Some bs \<Rightarrow> Some (CHR ''['' # join bs @ '']''))"
| "marshal (VMap kvs) = (case marshal_entries kvs of
      None \<Rightarrow> None
    | Some bs \<Rightarrow> Some (CHR ''{'' # join (map (\<lambda>(k, b). quote k @ CHR '':'' # b) (sort_key fst bs)) @ ''}''))"
| "marshal_elems [] = Some []"
| "marshal_elems (v # vs) = (case marshal v of
      None \<Rightarrow> None
    | Some b \<Rightarrow> map_option ((#) b) (marshal_elems vs))"
| "marshal_entries [] = Some []"
| "marshal_entries ((k, v) # kvs) = (case marshal v of
      None \<Rightarrow> None
    | Some b \<Rightarrow> map_option ((#) (k, b)) (marshal_entries kvs))"

text \<open>
  \<^verbatim>\<open>Dumps\<close> hands the pointer to the \<^verbatim>\<open>Config\<close> to \<^verbatim>\<open>json.Marshal\<close>: a nil map
  is written as \<^verbatim>\<open>null\<close>.
\<close>

definition Dumps :: "state \<Rightarrow> (string \<times> error option) outcome \<times> state" where
  "Dumps s = (case (case store s of None \<Rightarrow> Some ''null'' | Some kvs \<Rightarrow> marshal (VMap kvs)) of
      None \<Rightarrow> (Returns ([], Some UnsupportedValueError), s)
    | Some dump \<Rightarrow> (Returns (dump, None), s))"

section \<open>The accessors\<close>

definition map_index :: "Config \<Rightarrow> string \<Rightarrow> Value option" where
  "map_index c key = (case c of None \<Rightarrow> None | Some kvs \<Rightarrow> map_of kvs key)"

definition Get :: "string \<Rightarrow> state \<Rightarrow> (Value \<times> error option) outcome \<times> state" where
  "Get key s = (case map_index (store s) key of
      None \<Rightarrow> (Returns (VNil, Some ErrNoSuchKey), s)
    | Some val \<Rightarrow> (Returns (val, None), s))"

definition GetString :: "string \<Rightarrow> state \<Rightarrow> (string \<times> error option) outcome \<times> state" where
  "GetString key s = (case map_index (store s) key of
      None \<Rightarrow> (Returns ([], Some ErrNoSuchKey), s)
    | Some val \<Rightarrow> (case val of
          VString x \<Rightarrow> (Returns (x, None), s)
        | _ \<Rightarrow> (Panics TypeAssertion, s)))"

definition GetInt64 :: "arch \<Rightarrow> string \<Rightarrow> state \<Rightarrow> (64 word \<times> error option) outcome \<times> state" where
  "GetInt64 A key s = (case map_index (store s) key of
      None \<Rightarrow> (Returns (0, Some ErrNoSuchKey), s)
    | Some val \<Rightarrow> (case val of
          VFloat64 f \<Rightarrow> (Returns (int64_of_float64 A f, None), s)
        | _ \<Rightarrow> (Panics TypeAssertion, s)))"

definition GetUint64 :: "arch \<Rightarrow> string \<Rightarrow> state \<Rightarrow> (64 word \<times> error option) outcome \<times> state" where
  "GetUint64 A key s = (case map_index (store s) key of
      None \<Rightarrow> (Returns (0, Some ErrNoSuchKey), s)
    | Some val \<Rightarrow> (case val of
          VFloat64 f \<Rightarrow> (Returns (uint64_of_float64 A f, None), s)
        | _ \<Rightarrow> (Panics TypeAssertion, s)))"

text \<open>
  \<^verbatim>\<open>GetSubConfig\<close> reinterprets the \<^verbatim>\<open>map[string]interface{}\<close> as a \<^verbatim>\<open>Config\<close>
  through an unsafe pointer: the result is the same table, shared with the
  entry of the parent.  A \<open>Value\<close> is a value without identity here, so the
  result stands for the content of that table at the time of the call; what a
  later \<^verbatim>\<open>Set\<close> through the result does to the parent is not modelled.
\<close>

definition GetSubConfig :: "string \<Rightarrow> state \<Rightarrow> (Config \<times> error option) outcome \<times> state" where
  "GetSubConfig key s = bind (Get key s) (\<lambda>(val, err) s1.
      if err \<noteq> None then (Returns (Some [], err), s1)
      else (case val of
          VMap sc \<Rightarrow> (Returns (Some sc, None), s1)
        | _ \<Rightarrow> (Panics TypeAssertion, s1)))"

definition GetRequired :: "string \<Rightarrow> state \<Rightarrow> Value outcome \<times> state" where
  "GetRequired key s = bind (Get key s) (\<lambda>(val, err) s1.
      if err \<noteq> None then
        (Exits 1, s1\<lparr>sink := sink s1 @ [Errorf ''Configuration parameter %s is mandatory'' [VString key]]\<rparr>)
      else (Returns val, s1))"

definition GetRequiredSubConfig :: "string \<Rightarrow> state \<Rightarrow> Config outcome \<times> state" where
  "GetRequiredSubConfig key s = bind (GetRequired key s) (\<lambda>val s1.
      case val of
        VMap sc \<Rightarrow> (Returns (Some sc), s1)
      | _ \<Rightarrow> (Panics TypeAssertion, s1))"

definition GetRequiredString :: "string \<Rightarrow> state \<Rightarrow> string outcome \<times> state" where
  "GetRequiredString key s = bind (GetRequired key s) (\<lambda>val s1.
      case val of
        VString x \<Rightarrow> (Returns x, s1)
      | _ \<Rightarrow> (Panics TypeAssertion, s1))"

definition GetRequiredInt64 :: "arch \<Rightarrow> string \<Rightarrow> state \<Rightarrow> 64 word outcome \<times> state" where
  "GetRequiredInt64 A key s = bind (GetRequired key s) (\<lambda>val s1.
      case val of
        VInt64 n \<Rightarrow> (Returns n, s1)
      | VFloat64 f \<Rightarrow> (Returns (int64_of_float64 A f), s1)
      | _ \<Rightarrow> (Panics TypeAssertion, s1))"

definition GetRequiredUint64 :: "arch \<Rightarrow> string \<Rightarrow> state \<Rightarrow> 64 word outcome \<times> state" where
  "GetRequiredUint64 A key s = bind (GetRequired key s) (\<lambda>val s1.
      case val of
        VUint64 n \<Rightarrow> (Returns n, s1)
      | VFloat64 f \<Rightarrow> (Returns (uint64_of_float64 A f), s1)
      | _ \<Rightarrow> (Panics TypeAssertion, s1))"

text \<open>
  The loops of the slice accessors: \<open>out\<close> is the slice built so far, and the
  type assertion on an element panics at the first element of another type.
\<close>

fun string_elems :: "Value list \<Rightarrow> string list \<Rightarrow> string list outcome" where
  "string_elems [] out = Returns out"
| "string_elems (e # es) out = (case e of
      VString x \<Rightarrow> string_elems es (out @ [x])
    | _ \<Rightarrow> Panics TypeAssertion)"

fun uint64_elems :: "Value list \<Rightarrow> 64 word list \<Rightarrow> 64 word list outcome" where
  "uint64_elems [] out = Returns out"
| "uint64_elems (e # es) out = (case e of
      VUint64 n \<Rightarrow> uint64_elems es (out @ [n])
    | _ \<Rightarrow> Panics TypeAssertion)"

fun int64_elems :: "Value list \<Rightarrow> 64 word list \<Rightarrow> 64 word list outcome" where
  "int64_elems [] out = Returns out"
| "int64_elems (e # es) out = (case e of
      VInt64 n \<Rightarrow> int64_elems es (out @ [n])
    | _ \<Rightarrow> Panics TypeAssertion)"

definition GetRequiredStringSlice :: "string \<Rightarrow> state \<Rightarrow> string list outcome \<times> state" where
  "GetRequiredStringSlice key s = bind (GetRequired key s) (\<lambda>val s1.
      case val of
        VSlice es \<Rightarrow> (string_elems es [], s1)
      | _ \<Rightarrow> (Panics TypeAssertion, s1))"

definition GetRequiredUint64Slice :: "string \<Rightarrow> state \<Rightarrow> 64 word list outcome \<times> state" where
  "GetRequiredUint64Slice key s = bind (GetRequired key s) (\<lambda>val s1.
      case val of
        VSlice es \<Rightarrow> (uint64_elems es [], s1)
      | _ \<Rightarrow> (Panics TypeAssertion, s1))"

definition GetRequiredInt64Slice :: "string \<Rightarrow> state \<Rightarrow> 64 word list outcome \<times> state" where
  "GetRequiredInt64Slice key s = bind (GetRequired key s) (\<lambda>val s1.
      case val of
        VSlice es \<Rightarrow> (int64_elems es [], s1)
      | _ \<Rightarrow> (Panics TypeAssertion, s1))"

text \<open>Assignment into a nil map panics; otherwise the entry is inserted or overwritten.\<close>

definition Set :: "string \<Rightarrow> Value \<Rightarrow> state \<Rightarrow> unit outcome \<times> state" where
  "Set key val s = (case store s of
      None \<Rightarrow> (Panics NilMapAssignment, s)
    | Some kvs \<Rightarrow> (Returns (), s\<lparr>store := Some (AList.update key val kvs)\<rparr>))"

text \<open>\<^verbatim>\<open>Debug\<close> ranges over the map; ranging over a nil map runs no iteration.\<close>

fun debug_loop :: "(string \<times> Value) list \<Rightarrow> state \<Rightarrow> state" where
  "debug_loop [] s = s"
| "debug_loop ((key, val) # kvs) s =
     debug_loop kvs (s\<lparr>sink := sink s @ [Debugf ''config[%s] = %v'' [VString key, val]]\<rparr>)"

definition Debug :: "state \<Rightarrow> unit outcome \<times> state" where
  "Debug s = (Returns (), debug_loop (case store s of None \<Rightarrow> [] | Some kvs \<Rightarrow> kvs) s)"

section \<open>Notions for the proofs about the scanner\<close>

text \<open>
  \<open>run_from\<close> continues a run that may have failed; \<open>value_state\<close> and
  \<open>key_state\<close> are the states in which a value or a key may start.
\<close>

definition run_from :: "(expect \<times> frame list) option \<Rightarrow> token list \<Rightarrow> (expect \<times> frame list) option" where
  "run_from oc ts = (case oc of None \<Rightarrow> None | Some c \<Rightarrow> run c ts)"

definition value_state :: "expect \<Rightarrow> bool" where
  "value_state e = (e = XValue \<or> e = XValueOrClose)"

definition key_state :: "expect \<Rightarrow> bool" where
  "key_state e = (e = XKey \<or> e = XKeyOrClose)"

text \<open>
  The tokens that lead to a state of the parser: \<open>open_tokens\<close> are those of a
  container that waits for a value, \<open>consumed\<close> those of a whole state.
\<close>

fun open_tokens :: "frame \<Rightarrow> token list" where
  "open_tokens (FArray vs) = TLBracket # (if vs = [] then [] else elems_tokens vs @ [TComma])"
| "open_tokens (FMember kvs k) =
     TLBrace # (if kvs = [] then [] else members_tokens kvs @ [TComma]) @ [TStr k, TColon]"
| "open_tokens (FObject kvs) = []"

fun waiting :: "frame \<Rightarrow> bool" where
  "waiting (FObject kvs) = False"
| "waiting _ = True"

fun below :: "frame list \<Rightarrow> token list" where
  "below [] = []"
| "below (f # st) = below st @ open_tokens f"

fun consumed :: "expect \<times> frame list \<Rightarrow> token list" where
  "consumed (XValue, st) = below st"
| "consumed (XValueOrClose, st) = below (tl st) @ [TLBracket]"
| "consumed (XKeyOrClose, st) = below (tl st) @ [TLBrace]"
| "consumed (XKey, st) = (case st of
      FObject kvs # st1 \<Rightarrow> below st1 @ TLBrace # members_tokens kvs @ [TComma]
    | _ \<Rightarrow> [])"
| "consumed (XColon, st) = (case st of
      FMember kvs k # st1 \<Rightarrow>
        below st1 @ TLBrace # (if kvs = [] then [] else members_tokens kvs @ [TComma]) @ [TStr k]
    | _ \<Rightarrow> [])"
| "consumed (XEnd, st) = (case st of
      FArray vs # st1 \<Rightarrow> below st1 @ TLBracket # elems_tokens vs
    | FObject kvs # st1 \<Rightarrow> below st1 @ TLBrace # members_tokens kvs
    | _ \<Rightarrow> [])"
| "consumed (XDone v, st) = tokens_of v"

text \<open>
  The states that the parser reaches: below the top of the stack every
  container waits for a value, and the top fits what is expected next.
\<close>

fun proper :: "expect \<times> frame list \<Rightarrow> bool" where
  "proper (XValue, st) = list_all waiting st"
| "proper (XValueOrClose, st) = (case st of FArray vs # st1 \<Rightarrow> vs = [] \<and> list_all waiting st1 | _ \<Rightarrow> False)"
| "proper (XKeyOrClose, st) = (case st of FObject kvs # st1 \<Rightarrow> kvs = [] \<and> list_all waiting st1 | _ \<Rightarrow> False)"
| "proper (XKey, st) = (case st of FObject kvs # st1 \<Rightarrow> kvs \<noteq> [] \<and> list_all waiting st1 | _ \<Rightarrow> False)"
| "proper (XColon, st) = (case st of FMember kvs k # st1 \<Rightarrow> list_all waiting st1 | _ \<Rightarrow> False)"
| "proper (XEnd, st) = (case st of
      FArray vs # st1 \<Rightarrow> vs \<noteq> [] \<and> list_all waiting st1
    | FObject kvs # st1 \<Rightarrow> kvs \<noteq> [] \<and> list_all waiting st1
    | _ \<Rightarrow> False)"
| "proper (XDone v, st) = (st = [])"

text \<open>
  No container on the stack holds a document that would have needed more open
  containers than the scanner allows.
\<close>

fun frame_depth :: "frame \<Rightarrow> nat" where
  "frame_depth (FArray vs) = max_list (map depth vs)"
| "frame_depth (FObject kvs) = max_list (map (\<lambda>m. depth (snd m)) kvs)"
| "frame_depth (FMember kvs k) = max_list (map (\<lambda>m. depth (snd m)) kvs)"

fun shallow :: "frame list \<Rightarrow> bool" where
  "shallow [] = True"
| "shallow (f # st) = (Suc (length st) + frame_depth f \<le> maxNestingDepth \<and> shallow st)"

fun depth_ok :: "expect \<times> frame list \<Rightarrow> bool" where
  "depth_ok (XDone v, st) = (depth v \<le> maxNestingDepth)"
| "depth_ok (e, st) = shallow st"


definition no_digit_ahead :: "string \<Rightarrow> bool" where
  "no_digit_ahead rest = (case rest of [] \<Rightarrow> True | c # _ \<Rightarrow> \<not> is_digit c)"

text \<open>The tokens \<open>ts\<close> before the result of lexing what follows.\<close>

definition followed_by :: "token list \<Rightarrow> token list option \<Rightarrow> token list option" where
  "followed_by ts r = map_option ((@) ts) r"






section \<open>Properties of the accessors\<close>

text \<open>The magnitude that the conversion keeps is the floor of the magnitude of the number.\<close>

definition truncate_toward_zero :: "rat \<Rightarrow> int" where
  "truncate_toward_zero q = (if 0 \<le> q then \<lfloor>q\<rfloor> else \<lceil>q\<rceil>)"

lemma pow2_pos: "0 < pow2 e"
  by (simp add: pow2_def)

lemma trunc_magnitude_floor:
  assumes "0 \<le> m"
  shows "trunc_magnitude m e = \<lfloor>(of_int m :: rat) * pow2 e\<rfloor>"
proof (cases "0 \<le> e")
  case True
  have "\<lfloor>(of_int m :: rat) * 2 ^ nat e\<rfloor> = \<lfloor>(of_int (m * 2 ^ nat e) :: rat)\<rfloor>"
    by simp
  then show ?thesis using True by (simp add: trunc_magnitude_def pow2_def del: of_int_mult of_int_power)
next
  case False
  have "\<lfloor>(of_int m :: rat) / of_int (2 ^ nat (- e))\<rfloor> = m div 2 ^ nat (- e)"
    by (rule floor_divide_of_int_eq)
  then show ?thesis using False by (simp add: trunc_magnitude_def pow2_def)
qed

lemma truncate_float64_value:
  assumes "0 \<le> m"
  shows "truncate_toward_zero (float64_value (Float64 sg m e))
    = (if sg then - trunc_magnitude m e else trunc_magnitude m e)"
proof -
  define a where "a = (of_int m :: rat) * pow2 e"
  have a: "0 \<le> a" using assms pow2_pos [of e] by (simp add: a_def)
  have fl: "\<lfloor>a\<rfloor> = trunc_magnitude m e"
    using trunc_magnitude_floor [OF assms] by (simp add: a_def)
  have val: "float64_value (Float64 sg m e) = (if sg then - a else a)"
    by (simp add: float64_value_def a_def)
  have neg: "truncate_toward_zero (- a) = - \<lfloor>a\<rfloor>"
  proof (cases "a = 0")
    case True
    then show ?thesis by (simp add: truncate_toward_zero_def)
  next
    case False
    with a have "\<not> 0 \<le> - a" by linarith
    then show ?thesis by (simp add: truncate_toward_zero_def ceiling_minus)
  qed
  have pos: "truncate_toward_zero a = \<lfloor>a\<rfloor>"
    using a by (simp add: truncate_toward_zero_def)
  show ?thesis
    by (simp add: val neg pos fl)
qed

lemma bind_Returns [simp]: "bind (Returns x, s) f = f x s"
  by (simp add: bind_def)

lemma bind_Exits [simp]: "bind (Exits n, s) f = (Exits n, s)"
  by (simp add: bind_def)

lemma bind_Panics [simp]: "bind (Panics p, s) f = (Panics p, s)"
  by (simp add: bind_def)

lemma Get_store: "snd (Get key s) = s"
  by (simp add: Get_def split: option.splits)

lemma GetRequired_cases:
  "GetRequired key s = (case map_index (store s) key of
      None \<Rightarrow> (Exits 1, s\<lparr>sink := sink s @ [Errorf ''Configuration parameter %s is mandatory'' [VString key]]\<rparr>)
    | Some val \<Rightarrow> (Returns val, s))"
  by (simp add: GetRequired_def Get_def split: option.splits)

lemma string_elems_strings: "string_elems (map VString xs) out = Returns (out @ xs)"
  by (induction xs arbitrary: out) simp_all

lemma string_elems_panics:
  "\<exists>e \<in> set es. \<not> is_string e \<Longrightarrow> string_elems es out = Panics TypeAssertion"
proof (induction es arbitrary: out)
  case Nil
  then show ?case by simp
next
  case (Cons e es)
  then show ?case by (cases e) auto
qed

lemma int64_elems_float64_panics:
  "int64_elems (VFloat64 f # es) out = Panics TypeAssertion"
  by simp

lemma uint64_elems_float64_panics:
  "uint64_elems (VFloat64 f # es) out = Panics TypeAssertion"
  by simp

lemma debug_loop_store: "store (debug_loop kvs s) = store s"
  by (induction kvs s rule: debug_loop.induct) simp_all

lemma sint_in_range:
  assumes "- (2 ^ 63) \<le> x" "x < 2 ^ 63"
  shows "sint (word_of_int x :: 64 word) = x"
  using assms by (simp add: sint_sbintrunc' signed_take_bit_int_eq_self)

subsection \<open>Typed accessors on a value of another type\<close>

text \<open>
  C1 (as amended).  The source has no error for a type mismatch: the only
  error of the accessors is \<^verbatim>\<open>ErrNoSuchKey\<close>.  On a key whose value has another
  dynamic type than the one asserted, \<^verbatim>\<open>GetString\<close>, \<^verbatim>\<open>GetInt64\<close> and
  \<^verbatim>\<open>GetUint64\<close> panic in the type assertion and return nothing.
\<close>

theorem typed_accessors_panic_on_mismatch:
  assumes "map_index (store s) key = Some val"
  shows "(\<not> is_string val \<longrightarrow> GetString key s = (Panics TypeAssertion, s)) \<and>
         (\<not> is_float64 val \<longrightarrow> GetInt64 A key s = (Panics TypeAssertion, s)) \<and>
         (\<not> is_float64 val \<longrightarrow> GetUint64 A key s = (Panics TypeAssertion, s))"
  using assms by (cases val) (simp_all add: GetString_def GetInt64_def GetUint64_def)

theorem typed_accessors_panic_on_mismatch_witness:
  "map_index (store \<lparr>store = Some [(''x'', VBool True)], sink = []\<rparr>) ''x'' = Some (VBool True) \<and>
   \<not> is_string (VBool True) \<and> \<not> is_float64 (VBool True) \<and>
   GetString ''x'' \<lparr>store = Some [(''x'', VBool True)], sink = []\<rparr>
     = (Panics TypeAssertion, \<lparr>store = Some [(''x'', VBool True)], sink = []\<rparr>) \<and>
   GetInt64 amd64 ''x'' \<lparr>store = Some [(''x'', VBool True)], sink = []\<rparr>
     = (Panics TypeAssertion, \<lparr>store = Some [(''x'', VBool True)], sink = []\<rparr>) \<and>
   GetUint64 amd64 ''x'' \<lparr>store = Some [(''x'', VBool True)], sink = []\<rparr>
     = (Panics TypeAssertion, \<lparr>store = Some [(''x'', VBool True)], sink = []\<rparr>)"
proof -
  have h: "map_index (store \<lparr>store = Some [(''x'', VBool True)], sink = []\<rparr>) ''x'' = Some (VBool True)"
    by (simp add: map_index_def)
  show ?thesis
    using h typed_accessors_panic_on_mismatch [OF h, of amd64] by simp
qed

text \<open>
  The claim as stated fails: on a store loaded from \<^verbatim>\<open>{"x":1}\<close>,
  \<^verbatim>\<open>GetString("x")\<close> panics; it returns no error value.
\<close>

theorem GetString_number_counterexample:
  \<open>fst (GetString ''x'' \<lparr>store = fst (Loads ''{"x":1}''), sink = []\<rparr>) = Panics TypeAssertion\<close>
  by code_simp

subsection \<open>Sub-configurations\<close>

text \<open>
  C3 (as amended).  \<^verbatim>\<open>GetSubConfig\<close> returns \<^verbatim>\<open>ErrNoSuchKey\<close> with an empty
  \<^verbatim>\<open>Config\<close> when the key is absent, panics in the type assertion when the
  value is not a \<^verbatim>\<open>map[string]interface{}\<close>, and otherwise returns the nested
  table as a \<^verbatim>\<open>Config\<close>; where that table holds the number 1 under \<^verbatim>\<open>a\<close>,
  \<^verbatim>\<open>GetInt64("a")\<close> on the result returns 1.
\<close>

theorem GetSubConfig_cases:
  "(map_index (store s) key = None \<longrightarrow>
      GetSubConfig key s = (Returns (Some [], Some ErrNoSuchKey), s)) \<and>
   (\<forall>val. map_index (store s) key = Some val \<and> \<not> is_map val \<longrightarrow>
      GetSubConfig key s = (Panics TypeAssertion, s)) \<and>
   (\<forall>sc. map_index (store s) key = Some (VMap sc) \<longrightarrow>
      GetSubConfig key s = (Returns (Some sc, None), s) \<and>
      (map_of sc ''a'' = Some (VFloat64 (Float64 False 4503599627370496 (- 52))) \<longrightarrow>
         GetInt64 A ''a'' (s\<lparr>store := Some sc\<rparr>) = (Returns (1, None), s\<lparr>store := Some sc\<rparr>)))"
proof (intro conjI allI impI)
  show "GetSubConfig key s = (Returns (Some [], Some ErrNoSuchKey), s)"
    if "map_index (store s) key = None"
    using that by (simp add: GetSubConfig_def Get_def)
  show "GetSubConfig key s = (Panics TypeAssertion, s)"
    if "map_index (store s) key = Some val \<and> \<not> is_map val" for val
    using that by (cases val) (simp_all add: GetSubConfig_def Get_def)
  show "GetSubConfig key s = (Returns (Some sc, None), s)"
    if "map_index (store s) key = Some (VMap sc)" for sc
    using that by (simp add: GetSubConfig_def Get_def)
  show "GetInt64 A ''a'' (s\<lparr>store := Some sc\<rparr>) = (Returns (1, None), s\<lparr>store := Some sc\<rparr>)"
    if "map_of sc ''a'' = Some (VFloat64 (Float64 False 4503599627370496 (- 52)))" for sc
    using that by (simp add: GetInt64_def map_index_def int64_of_float64_def trunc_magnitude_def)
qed

theorem GetSubConfig_cases_witness:
  \<open>fst (Loads ''{"x":{"a":1}}'') = Some [(''x'', VMap [(''a'', VFloat64 (Float64 False 4503599627370496 (- 52)))])] \<and>
   GetSubConfig ''x'' \<lparr>store = fst (Loads ''{"x":{"a":1}}''), sink = []\<rparr>
     = (Returns (Some [(''a'', VFloat64 (Float64 False 4503599627370496 (- 52)))], None),
        \<lparr>store = fst (Loads ''{"x":{"a":1}}''), sink = []\<rparr>) \<and>
   GetInt64 amd64 ''a'' \<lparr>store = Some [(''a'', VFloat64 (Float64 False 4503599627370496 (- 52)))], sink = []\<rparr>
     = (Returns (1, None), \<lparr>store = Some [(''a'', VFloat64 (Float64 False 4503599627370496 (- 52)))], sink = []\<rparr>) \<and>
   GetSubConfig ''y'' \<lparr>store = fst (Loads ''{"x":{"a":1}}''), sink = []\<rparr>
     = (Returns (Some [], Some ErrNoSuchKey), \<lparr>store = fst (Loads ''{"x":{"a":1}}''), sink = []\<rparr>) \<and>
   GetSubConfig ''x'' \<lparr>store = Some [(''x'', VNil)], sink = []\<rparr>
     = (Panics TypeAssertion, \<lparr>store = Some [(''x'', VNil)], sink = []\<rparr>)\<close>
proof -
  have l: \<open>fst (Loads ''{"x":{"a":1}}'') = Some [(''x'', VMap [(''a'', VFloat64 (Float64 False 4503599627370496 (- 52)))])]\<close>
    by code_simp
  show ?thesis
    using GetSubConfig_cases [of "\<lparr>store = Some [(''x'', VMap [(''a'', VFloat64 (Float64 False 4503599627370496 (- 52)))])], sink = []\<rparr>" "''x''" amd64]
      GetSubConfig_cases [of "\<lparr>store = Some [(''x'', VMap [(''a'', VFloat64 (Float64 False 4503599627370496 (- 52)))])], sink = []\<rparr>" "''y''" amd64]
      GetSubConfig_cases [of "\<lparr>store = Some [(''x'', VNil)], sink = []\<rparr>" "''x''" amd64]
    by (simp add: l map_index_def)
qed

text \<open>
  The claim as stated fails: where \<^verbatim>\<open>x\<close> holds a string, \<^verbatim>\<open>GetSubConfig("x")\<close>
  panics; it returns no error value.
\<close>

theorem GetSubConfig_string_counterexample:
  \<open>fst (GetSubConfig ''x'' \<lparr>store = fst (Loads ''{"x":"s"}''), sink = []\<rparr>) = Panics TypeAssertion\<close>
  by code_simp

subsection \<open>Required slices\<close>

text \<open>
  C4.  On a store loaded from \<^verbatim>\<open>{"arr":[1,2]}\<close> the elements are \<^verbatim>\<open>float64\<close>, and
  \<^verbatim>\<open>GetRequiredInt64Slice\<close> and \<^verbatim>\<open>GetRequiredUint64Slice\<close> panic in the type
  assertion on the first element, while \<^verbatim>\<open>GetRequiredInt64\<close> and
  \<^verbatim>\<open>GetRequiredUint64\<close> accept the same kind of value; \<^verbatim>\<open>GetRequiredStringSlice\<close>
  on \<^verbatim>\<open>["a","b"]\<close> returns the strings in order.
\<close>

theorem numeric_slices_panic_on_json_numbers:
  \<open>fst (GetRequiredInt64Slice ''arr'' \<lparr>store = fst (Loads ''{"arr":[1,2]}''), sink = []\<rparr>) = Panics TypeAssertion \<and>
   fst (GetRequiredUint64Slice ''arr'' \<lparr>store = fst (Loads ''{"arr":[1,2]}''), sink = []\<rparr>) = Panics TypeAssertion \<and>
   fst (GetRequiredInt64 amd64 ''n'' \<lparr>store = fst (Loads ''{"n":1}''), sink = []\<rparr>) = Returns 1 \<and>
   fst (GetRequiredUint64 amd64 ''n'' \<lparr>store = fst (Loads ''{"n":1}''), sink = []\<rparr>) = Returns 1 \<and>
   fst (GetRequiredStringSlice ''arr'' \<lparr>store = fst (Loads ''{"arr":["a","b"]}''), sink = []\<rparr>) = Returns [''a'', ''b'']\<close>
  by code_simp



subsection \<open>Conversion of a JSON number by GetInt64\<close>

text \<open>
  C5 (as amended).  On a key that holds a \<^verbatim>\<open>float64\<close> whose value, with the
  fraction discarded, lies in the range of \<^verbatim>\<open>int64\<close>, \<^verbatim>\<open>GetInt64\<close> returns
  that value truncated towards zero and no error.
\<close>

theorem GetInt64_truncates:
  assumes "map_index (store s) key = Some (VFloat64 (Float64 sg m e))"
    and "0 \<le> m"
    and "- (2 ^ 63) \<le> truncate_toward_zero (float64_value (Float64 sg m e))"
    and "truncate_toward_zero (float64_value (Float64 sg m e)) < 2 ^ 63"
  shows "GetInt64 A key s = (Returns (int64_of_float64 A (Float64 sg m e), None), s) \<and>
         sint (int64_of_float64 A (Float64 sg m e))
           = truncate_toward_zero (float64_value (Float64 sg m e))"
proof -
  define t where "t = trunc_magnitude m e"
  have tz: "truncate_toward_zero (float64_value (Float64 sg m e)) = (if sg then - t else t)"
    unfolding t_def using assms(2) by (rule truncate_float64_value)
  have "sint (int64_of_float64 A (Float64 sg m e)) = (if sg then - t else t)"
  proof (cases sg)
    case True
    with assms(3,4) tz have r: "- (2 ^ 63) \<le> - t" "- t < 2 ^ 63"
      by simp_all
    then have "t \<le> 2 ^ 63" by simp
    then have "int64_of_float64 A (Float64 sg m e) = word_of_int (- t)"
      using True by (simp add: int64_of_float64_def t_def)
    then show ?thesis
      using True sint_in_range [OF r] by simp
  next
    case False
    with assms(3,4) tz have r: "- (2 ^ 63) \<le> t" "t < 2 ^ 63"
      by simp_all
    then have "int64_of_float64 A (Float64 sg m e) = word_of_int t"
      using False by (simp add: int64_of_float64_def t_def)
    then show ?thesis
      using False sint_in_range [OF r] by simp
  qed
  then show ?thesis
    using assms(1) by (simp add: GetInt64_def tz)
qed

text \<open>The numbers 42 and 3.9 of the claim, loaded from JSON: 42 and 3.\<close>

theorem GetInt64_truncates_witness:
  \<open>fst (Loads ''{"x":42,"y":3.9}'')
     = Some [(''x'', VFloat64 (Float64 False 5910974510923776 (- 47))),
             (''y'', VFloat64 (Float64 False 8782019273372467 (- 51)))] \<and>
   truncate_toward_zero (float64_value (Float64 False 5910974510923776 (- 47))) = 42 \<and>
   truncate_toward_zero (float64_value (Float64 False 8782019273372467 (- 51))) = 3 \<and>
   fst (GetInt64 amd64 ''x'' \<lparr>store = fst (Loads ''{"x":42,"y":3.9}''), sink = []\<rparr>) = Returns (42, None) \<and>
   fst (GetInt64 amd64 ''y'' \<lparr>store = fst (Loads ''{"x":42,"y":3.9}''), sink = []\<rparr>) = Returns (3, None) \<and>
   sint (int64_of_float64 amd64 (Float64 False 5910974510923776 (- 47))) = 42 \<and>
   sint (int64_of_float64 amd64 (Float64 False 8782019273372467 (- 51))) = 3\<close>
proof -
  let ?s = "\<lparr>store = Some [(''x'', VFloat64 (Float64 False 5910974510923776 (- 47))),
             (''y'', VFloat64 (Float64 False 8782019273372467 (- 51)))], sink = []\<rparr>"
  have l: \<open>fst (Loads ''{"x":42,"y":3.9}'')
     = Some [(''x'', VFloat64 (Float64 False 5910974510923776 (- 47))),
             (''y'', VFloat64 (Float64 False 8782019273372467 (- 51)))]\<close>
    by code_simp
  have t1: "truncate_toward_zero (float64_value (Float64 False 5910974510923776 (- 47))) = 42"
    by (simp add: truncate_float64_value trunc_magnitude_def)
  have t2: "truncate_toward_zero (float64_value (Float64 False 8782019273372467 (- 51))) = 3"
    by (simp add: truncate_float64_value trunc_magnitude_def)
  have x: "map_index (store ?s) ''x'' = Some (VFloat64 (Float64 False 5910974510923776 (- 47)))"
    by (simp add: map_index_def)
  have y: "map_index (store ?s) ''y'' = Some (VFloat64 (Float64 False 8782019273372467 (- 51)))"
    by (simp add: map_index_def)
  have w1: "int64_of_float64 amd64 (Float64 False 5910974510923776 (- 47)) = 42"
    by (simp add: int64_of_float64_def trunc_magnitude_def)
  have w2: "int64_of_float64 amd64 (Float64 False 8782019273372467 (- 51)) = 3"
    by (simp add: int64_of_float64_def trunc_magnitude_def)
  show ?thesis
    using GetInt64_truncates [OF x, of amd64] GetInt64_truncates [OF y, of amd64]
    by (simp add: l t1 t2 w1 w2)
qed

text \<open>
  The claim as stated fails for a JSON number beyond the range of \<^verbatim>\<open>int64\<close>: on
  \<^verbatim>\<open>1e19\<close>, whose truncation is \<open>10\<^sup>1\<^sup>9\<close>, the conversion on amd64 yields \<open>- 2\<^sup>6\<^sup>3\<close>.
\<close>

theorem GetInt64_1e19_counterexample:
  \<open>fst (Loads ''{"x":1e19}'') = Some [(''x'', VFloat64 (Float64 False 4882812500000000 11))] \<and>
   truncate_toward_zero (float64_value (Float64 False 4882812500000000 11)) = 10000000000000000000 \<and>
   fst (GetInt64 amd64 ''x'' \<lparr>store = fst (Loads ''{"x":1e19}''), sink = []\<rparr>)
     = Returns (0x8000000000000000, None) \<and>
   sint (0x8000000000000000 :: 64 word) = - 9223372036854775808\<close>
proof -
  have l: \<open>fst (Loads ''{"x":1e19}'') = Some [(''x'', VFloat64 (Float64 False 4882812500000000 11))]\<close>
    by code_simp
  have v: "truncate_toward_zero (float64_value (Float64 False 4882812500000000 11)) = 10000000000000000000"
    by (simp add: truncate_float64_value trunc_magnitude_def)
  have g: "fst (GetInt64 amd64 ''x'' \<lparr>store = Some [(''x'', VFloat64 (Float64 False 4882812500000000 11))], sink = []\<rparr>)
     = Returns (0x8000000000000000, None)"
    by (simp add: GetInt64_def map_index_def int64_of_float64_def trunc_magnitude_def amd64_def)
  show ?thesis
    by (simp add: l v g)
qed


subsection \<open>Binary logarithm\<close>


lemma bit_length_nonpos [simp]: "n \<le> 0 \<Longrightarrow> bit_length n = 0"
  by (subst bit_length.simps) simp




subsection \<open>Errors of decoding\<close>

lemma first_error_None [simp]: "first_error e1 e2 = None \<longleftrightarrow> e1 = None \<and> e2 = None"
  by (cases e1) (simp_all add: first_error_def)


section \<open>The scanner and the grammar\<close>

subsection \<open>The parser accepts the tokens of a document\<close>

lemma run_from_simps [simp]: "run_from None ts = None" "run_from (Some c) ts = run c ts"
  by (simp_all add: run_from_def)

lemma run_Cons: "run c (t # ts) = run_from (step c t) ts"
  by (simp add: run_from_def)

lemma run_Nil: "run c [] = Some c"
  by simp

declare run.simps(2) [simp del]

lemma run_append: "run c (ts @ us) = run_from (run c ts) us"
  by (induction ts arbitrary: c) (simp_all add: run_Cons run_from_def split: option.splits)

lemma tokens_of_not_Nil [simp]: "tokens_of j \<noteq> []"
  by (cases j) simp_all

lemma step_scalar:
  assumes "value_state e"
  shows "step (e, st) TNull = push_value JNull st"
    "step (e, st) TTrue = push_value (JBool True) st"
    "step (e, st) TFalse = push_value (JBool False) st"
    "step (e, st) (TNum x) = push_value (JNumber x) st"
    "step (e, st) (TStr y) = push_value (JString y) st"
    "step (e, st) TLBracket = (if length st < maxNestingDepth then Some (XValueOrClose, FArray [] # st) else None)"
    "step (e, st) TLBrace = (if length st < maxNestingDepth then Some (XKeyOrClose, FObject [] # st) else None)"
  using assms by (auto simp: value_state_def)

lemma step_key:
  assumes "key_state e"
  shows "step (e, FObject kvs # st) (TStr k) = Some (XColon, FMember kvs k # st)"
  using assms by (auto simp: key_state_def)

lemma run_tokens_of:
  "length st + depth j \<le> maxNestingDepth \<Longrightarrow> value_state e \<Longrightarrow>
     run (e, st) (tokens_of j @ rest) = run_from (push_value j st) rest"
  "js \<noteq> [] \<Longrightarrow> Suc (length st) + max_list (map depth js) \<le> maxNestingDepth \<Longrightarrow> value_state e \<Longrightarrow>
     run (e, FArray vs # st) (elems_tokens js @ TRBracket # rest)
       = run_from (push_value (JArray (vs @ js)) st) rest"
  "ms \<noteq> [] \<Longrightarrow> Suc (length st) + max_list (map (\<lambda>m. depth (snd m)) ms) \<le> maxNestingDepth \<Longrightarrow> key_state e \<Longrightarrow>
     run (e, FObject kvs # st) (members_tokens ms @ TRBrace # rest)
       = run_from (push_value (JObject (kvs @ ms)) st) rest"
proof (induction j and js and ms arbitrary: st e rest and st e rest vs and st e rest kvs
    rule: tokens_of_elems_tokens_members_tokens.induct)
  case 1
  then show ?case by (simp add: run_Cons step_scalar)
next
  case (2 b)
  then show ?case by (simp add: run_Cons step_scalar)
next
  case (3 x)
  then show ?case by (simp add: run_Cons step_scalar)
next
  case (4 x)
  then show ?case by (simp add: run_Cons step_scalar)
next
  case (5 js)
  have len: "length st < maxNestingDepth"
    using "5.prems"(1) by simp
  show ?case
  proof (cases "js = []")
    case True
    then show ?thesis
      using len "5.prems"(2) by (simp add: run_Cons step_scalar)
  next
    case False
    have "run (XValueOrClose, FArray [] # st) (elems_tokens js @ TRBracket # rest)
        = run_from (push_value (JArray ([] @ js)) st) rest"
      using "5.prems"(1) by (intro "5.IH" False) (simp_all add: value_state_def)
    then show ?thesis
      using len "5.prems"(2) by (simp add: run_Cons step_scalar)
  qed
next
  case (6 ms)
  have len: "length st < maxNestingDepth"
    using "6.prems"(1) by simp
  show ?case
  proof (cases "ms = []")
    case True
    then show ?thesis
      using len "6.prems"(2) by (simp add: run_Cons step_scalar)
  next
    case False
    have "run (XKeyOrClose, FObject [] # st) (members_tokens ms @ TRBrace # rest)
        = run_from (push_value (JObject ([] @ ms)) st) rest"
      using "6.prems"(1) by (intro "6.IH" False) (simp_all add: key_state_def)
    then show ?thesis
      using len "6.prems"(2) by (simp add: run_Cons step_scalar)
  qed
next
  case 7
  then show ?case by simp
next
  case (8 j js)
  have dj: "length (FArray vs # st) + depth j \<le> maxNestingDepth"
    using "8.prems"(2) by simp
  have j: "run (e, FArray vs # st) (tokens_of j @ us) = run (XEnd, FArray (vs @ [j]) # st) us" for us
    using "8.IH"(1) [OF dj "8.prems"(3), of us] by simp
  show ?case
  proof (cases "js = []")
    case True
    have "run (e, FArray vs # st) (tokens_of j @ TRBracket # rest)
        = run_from (push_value (JArray (vs @ [j])) st) rest"
      unfolding j by (simp add: run_Cons)
    then show ?thesis
      using True by simp
  next
    case False
    have djs: "Suc (length st) + max_list (map depth js) \<le> maxNestingDepth"
      using "8.prems"(2) by simp
    have "run (XValue, FArray (vs @ [j]) # st) (elems_tokens js @ TRBracket # rest)
        = run_from (push_value (JArray ((vs @ [j]) @ js)) st) rest"
      by (rule "8.IH"(2) [OF False False djs]) (simp add: value_state_def)
    then have "run (e, FArray vs # st) (tokens_of j @ TComma # elems_tokens js @ TRBracket # rest)
        = run_from (push_value (JArray (vs @ j # js)) st) rest"
      unfolding j by (simp add: run_Cons)
    then show ?thesis
      using False by simp
  qed
next
  case 9
  then show ?case by simp
next
  case (10 k j ms)
  have dj: "length (FMember kvs k # st) + depth j \<le> maxNestingDepth"
    using "10.prems"(2) by simp
  have j: "run (XValue, FMember kvs k # st) (tokens_of j @ us)
      = run (XEnd, FObject (kvs @ [(k, j)]) # st) us" for us
    using "10.IH"(1) [OF dj, of XValue us] by (simp add: value_state_def)
  have start: "run (e, FObject kvs # st) (TStr k # TColon # tokens_of j @ us)
      = run (XEnd, FObject (kvs @ [(k, j)]) # st) us" for us
    using j [of us] "10.prems"(3) by (simp add: run_Cons step_key)
  show ?case
  proof (cases "ms = []")
    case True
    have "run (e, FObject kvs # st) (TStr k # TColon # tokens_of j @ TRBrace # rest)
        = run_from (push_value (JObject (kvs @ [(k, j)])) st) rest"
      unfolding start by (simp add: run_Cons)
    then show ?thesis
      using True by simp
  next
    case False
    have dms: "Suc (length st) + max_list (map (\<lambda>m. depth (snd m)) ms) \<le> maxNestingDepth"
      using "10.prems"(2) by simp
    have "run (XKey, FObject (kvs @ [(k, j)]) # st) (members_tokens ms @ TRBrace # rest)
        = run_from (push_value (JObject ((kvs @ [(k, j)]) @ ms)) st) rest"
      by (rule "10.IH"(2) [OF False False dms]) (simp add: key_state_def)
    then have "run (e, FObject kvs # st) (TStr k # TColon # tokens_of j @ TComma # members_tokens ms @ TRBrace # rest)
        = run_from (push_value (JObject (kvs @ (k, j) # ms)) st) rest"
      unfolding start by (simp add: run_Cons)
    then show ?thesis
      using False by simp
  qed
qed

lemma parse_tokens_of:
  assumes "depth j \<le> maxNestingDepth"
  shows "parse_tokens (tokens_of j) = Some j"
proof -
  have "run (XValue, []) (tokens_of j @ []) = run_from (push_value j []) []"
    using assms by (intro run_tokens_of(1)) (simp_all add: value_state_def)
  then show ?thesis
    by (simp add: parse_tokens_def)
qed

subsection \<open>The parser accepts nothing else\<close>

lemma elems_tokens_snoc:
  "elems_tokens (vs @ [v]) = (if vs = [] then [] else elems_tokens vs @ [TComma]) @ tokens_of v"
  by (induction vs) auto

lemma members_tokens_snoc:
  "members_tokens (kvs @ [(k, v)])
     = (if kvs = [] then [] else members_tokens kvs @ [TComma]) @ TStr k # TColon # tokens_of v"
  by (induction kvs) auto

lemma max_list_snoc: "max_list (ns @ [n]) = max (max_list ns) n"
  by (induction ns) auto

lemma shallow_length: "shallow st \<Longrightarrow> length st \<le> maxNestingDepth"
  by (cases st) auto

lemma push_value_inv:
  assumes "list_all waiting st" "shallow st" "length st + depth v \<le> maxNestingDepth"
  shows "\<exists>c. push_value v st = Some c \<and> proper c \<and> depth_ok c \<and> consumed c = below st @ tokens_of v"
proof (cases st)
  case Nil
  then show ?thesis using assms by simp
next
  case (Cons f st1)
  show ?thesis
  proof (cases f)
    case (FArray vs)
    then show ?thesis
      using assms Cons by (auto simp: elems_tokens_snoc max_list_snoc)
  next
    case (FObject kvs)
    then show ?thesis
      using assms Cons by simp
  next
    case (FMember kvs k)
    then show ?thesis
      using assms Cons by (auto simp: members_tokens_snoc max_list_snoc)
  qed
qed

lemma begin_value_inv:
  assumes "list_all waiting st" "shallow st" "begin_value t st = Some c"
  shows "proper c \<and> depth_ok c \<and> consumed c = below st @ [t]"
proof -
  have len: "length st + 0 \<le> maxNestingDepth"
    using shallow_length [OF assms(2)] by simp
  have scalar: "proper c \<and> depth_ok c \<and> consumed c = below st @ [t]"
    if "begin_value t st = push_value v st" "depth v = 0" "tokens_of v = [t]" for v
    using push_value_inv [OF assms(1,2), of v] that assms(3) len by auto
  show ?thesis
  proof (cases t)
    case TLBrace
    then show ?thesis using assms by (auto split: if_splits)
  next
    case TLBracket
    then show ?thesis using assms by (auto split: if_splits)
  next
    case (TStr x)
    then show ?thesis by (intro scalar [of "JString x"]) simp_all
  next
    case (TNum x)
    then show ?thesis by (intro scalar [of "JNumber x"]) simp_all
  next
    case TTrue
    then show ?thesis by (intro scalar [of "JBool True"]) simp_all
  next
    case TFalse
    then show ?thesis by (intro scalar [of "JBool False"]) simp_all
  next
    case TNull
    then show ?thesis by (intro scalar [of JNull]) simp_all
  qed (use assms in simp_all)
qed

lemma close_array_inv:
  assumes "list_all waiting st" "shallow (FArray vs # st)" "close_array (FArray vs # st) = Some c"
  shows "proper c \<and> depth_ok c \<and> consumed c = below st @ TLBracket # elems_tokens vs @ [TRBracket]"
  using push_value_inv [OF assms(1), of "JArray vs"] assms(2,3) by auto

lemma close_object_inv:
  assumes "list_all waiting st" "shallow (FObject kvs # st)" "close_object (FObject kvs # st) = Some c"
  shows "proper c \<and> depth_ok c \<and> consumed c = below st @ TLBrace # members_tokens kvs @ [TRBrace]"
  using push_value_inv [OF assms(1), of "JObject kvs"] assms(2,3) by auto

lemma step_inv:
  assumes "proper (e, st)" "depth_ok (e, st)" "step (e, st) t = Some c"
  shows "proper c \<and> depth_ok c \<and> consumed c = consumed (e, st) @ [t]"
proof (cases e)
  case XValue
  then show ?thesis
    using assms begin_value_inv [of st t c] by simp
next
  case XValueOrClose
  then obtain st1 where st: "st = FArray [] # st1" and w: "list_all waiting st1"
    using assms(1) by (auto split: list.splits frame.splits)
  show ?thesis
  proof (cases "t = TRBracket")
    case True
    then show ?thesis
      using assms XValueOrClose st w close_array_inv [of st1 "[]" c] by simp
  next
    case False
    then show ?thesis
      using assms XValueOrClose st w begin_value_inv [of st t c] by simp
  qed
next
  case XKeyOrClose
  then obtain st1 where st: "st = FObject [] # st1" and w: "list_all waiting st1"
    using assms(1) by (auto split: list.splits frame.splits)
  show ?thesis
    using assms XKeyOrClose st w close_object_inv [of st1 "[]" c]
    by (cases t) auto
next
  case XKey
  then obtain kvs st1 where st: "st = FObject kvs # st1" and w: "list_all waiting st1" "kvs \<noteq> []"
    using assms(1) by (auto split: list.splits frame.splits)
  show ?thesis
    using assms XKey st w by (cases t) auto
next
  case XColon
  then obtain kvs k st1 where st: "st = FMember kvs k # st1" and w: "list_all waiting st1"
    using assms(1) by (auto split: list.splits frame.splits)
  show ?thesis
    using assms XColon st w by (auto split: if_splits)
next
  case XEnd
  from XEnd assms(1) consider
      (arr) vs st1 where "st = FArray vs # st1" "list_all waiting st1" "vs \<noteq> []"
    | (obj) kvs st1 where "st = FObject kvs # st1" "list_all waiting st1" "kvs \<noteq> []"
    by (auto split: list.splits frame.splits)
  then show ?thesis
  proof cases
    case arr
    show ?thesis
    proof (cases "t = TComma")
      case True
      then show ?thesis using assms XEnd arr by auto
    next
      case False
      then have "t = TRBracket" and cl: "close_array (FArray vs # st1) = Some c"
        using assms(3) XEnd arr by (auto split: if_splits)
      then show ?thesis
        using assms(2) XEnd arr close_array_inv [of st1 vs c] by simp
    qed
  next
    case obj
    show ?thesis
    proof (cases "t = TComma")
      case True
      then show ?thesis using assms XEnd obj by auto
    next
      case False
      then have "t = TRBrace" and cl: "close_object (FObject kvs # st1) = Some c"
        using assms(3) XEnd obj by (auto split: if_splits)
      then show ?thesis
        using assms(2) XEnd obj close_object_inv [of st1 kvs c] by simp
    qed
  qed
next
  case (XDone v)
  then show ?thesis using assms by simp
qed

lemma run_inv:
  "proper c \<Longrightarrow> depth_ok c \<Longrightarrow> run c ts = Some c' \<Longrightarrow>
   proper c' \<and> depth_ok c' \<and> consumed c' = consumed c @ ts"
proof (induction ts arbitrary: c)
  case Nil
  then show ?case by simp
next
  case (Cons t ts)
  obtain e st where c: "c = (e, st)" by (cases c)
  from Cons.prems(3) obtain c1 where s: "step c t = Some c1" and r: "run c1 ts = Some c'"
    by (auto simp: run_Cons run_from_def split: option.splits)
  have i: "proper c1 \<and> depth_ok c1 \<and> consumed c1 = consumed c @ [t]"
    using step_inv [of e st t c1] Cons.prems(1,2) s by (simp add: c)
  show ?case
    using Cons.IH [of c1] i r by simp
qed

lemma parse_tokens_sound:
  assumes "parse_tokens ts = Some j"
  shows "ts = tokens_of j \<and> depth j \<le> maxNestingDepth"
proof -
  from assms obtain st where r: "run (XValue, []) ts = Some (XDone j, st)"
    by (auto simp: parse_tokens_def split: option.splits prod.splits expect.splits)
  show ?thesis
    using run_inv [OF _ _ r] by simp
qed

theorem parse_tokens_iff:
  "parse_tokens ts = Some j \<longleftrightarrow> ts = tokens_of j \<and> depth j \<le> maxNestingDepth"
  using parse_tokens_sound parse_tokens_of by blast

subsection \<open>String literals\<close>

lemma special_chars [simp]:
  "backslash \<noteq> dquote" "dquote \<noteq> backslash"
  "\<not> (of_char dquote :: nat) < 0x20" "\<not> (of_char backslash :: nat) < 0x20"
  by (simp_all add: backslash_def dquote_def)

lemma escape_not_u:
  "e \<in> set [dquote, backslash, CHR ''/'', CHR ''b'', CHR ''f'', CHR ''n'', CHR ''r'', CHR ''t''] \<Longrightarrow> e \<noteq> CHR ''u''"
  by (auto simp: backslash_def dquote_def)



subsection \<open>Number literals\<close>


lemma no_digit_ahead_Cons [simp]: "no_digit_ahead (c # cs) = (\<not> is_digit c)"
  by (simp add: no_digit_ahead_def)

lemma no_digit_ahead_Nil [simp]: "no_digit_ahead []"
  by (simp add: no_digit_ahead_def)

lemma is_digit_simps [simp]:
  "\<not> is_digit (CHR ''.'')" "\<not> is_digit (CHR ''e'')" "\<not> is_digit (CHR ''E'')"
  "\<not> is_digit (CHR ''-'')" "\<not> is_digit (CHR ''+'')" "is_digit (CHR ''0'')"
  "\<not> is_digit (CHR '','')" "\<not> is_digit (CHR '']'')" "\<not> is_digit (CHR ''}'')"
  by (simp_all add: is_digit_def)



lemma digits_Cons: "digits (c # cs) = (is_digit c \<and> list_all is_digit cs)"
  by (simp add: digits_def)












subsection \<open>The lexer on a text of the grammar\<close>

lemma followed_by_simps [simp]:
  "followed_by ts None = None"
  "followed_by ts (Some us) = Some (ts @ us)"
  "followed_by ts (followed_by us r) = followed_by (ts @ us) r"
  "followed_by [] r = r"
  by (cases r; simp add: followed_by_def)+

declare lex.simps(2) [simp del]





lemma ws_append [simp]: "ws (w1 @ w2) = (ws w1 \<and> ws w2)"
  by (simp add: ws_def)













subsection \<open>What the lexer accepts\<close>







subsection \<open>The tokens of a document come from a text of the grammar\<close>






subsection \<open>A text denotes one document\<close>






subsection \<open>Arrays nested in one another\<close>






subsection \<open>The depth of a document and the length of its text\<close>




subsection \<open>Decoding arrays nested in one another\<close>



section \<open>Properties of loading and of the accessors\<close>

subsection \<open>What Loads accepts\<close>






subsection \<open>Required accessors on an absent key\<close>

text \<open>
  C7.  On an absent key every \<^verbatim>\<open>GetRequired*\<close> accessor ends the process with
  exit status 1, after one \<^verbatim>\<open>log.Errorf\<close> whose argument is the key; it returns
  nothing.
\<close>

theorem GetRequired_missing_exits:
  assumes "map_index (store s) key = None"
  shows "GetRequired key s
           = (Exits 1, s\<lparr>sink := sink s @ [Errorf ''Configuration parameter %s is mandatory'' [VString key]]\<rparr>) \<and>
         GetRequiredSubConfig key s
           = (Exits 1, s\<lparr>sink := sink s @ [Errorf ''Configuration parameter %s is mandatory'' [VString key]]\<rparr>) \<and>
         GetRequiredString key s
           = (Exits 1, s\<lparr>sink := sink s @ [Errorf ''Configuration parameter %s is mandatory'' [VString key]]\<rparr>) \<and>
         GetRequiredInt64 A key s
           = (Exits 1, s\<lparr>sink := sink s @ [Errorf ''Configuration parameter %s is mandatory'' [VString key]]\<rparr>) \<and>
         GetRequiredUint64 A key s
           = (Exits 1, s\<lparr>sink := sink s @ [Errorf ''Configuration parameter %s is mandatory'' [VString key]]\<rparr>) \<and>
         GetRequiredStringSlice key s
           = (Exits 1, s\<lparr>sink := sink s @ [Errorf ''Configuration parameter %s is mandatory'' [VString key]]\<rparr>) \<and>
         GetRequiredUint64Slice key s
           = (Exits 1, s\<lparr>sink := sink s @ [Errorf ''Configuration parameter %s is mandatory'' [VString key]]\<rparr>) \<and>
         GetRequiredInt64Slice key s
           = (Exits 1, s\<lparr>sink := sink s @ [Errorf ''Configuration parameter %s is mandatory'' [VString key]]\<rparr>)"
proof -
  have req: "GetRequired key s
      = (Exits 1, s\<lparr>sink := sink s @ [Errorf ''Configuration parameter %s is mandatory'' [VString key]]\<rparr>)"
    using assms by (simp add: GetRequired_cases)
  show ?thesis
    by (simp add: req GetRequiredSubConfig_def GetRequiredString_def GetRequiredInt64_def
        GetRequiredUint64_def GetRequiredStringSlice_def GetRequiredUint64Slice_def
        GetRequiredInt64Slice_def)
qed

theorem GetRequired_missing_exits_witness:
  \<open>map_index (store \<lparr>store = fst (Loads ''{"host":"a"}''), sink = []\<rparr>) ''port'' = None \<and>
   GetRequired ''port'' \<lparr>store = fst (Loads ''{"host":"a"}''), sink = []\<rparr>
     = (Exits 1, \<lparr>store = fst (Loads ''{"host":"a"}''),
                  sink = [Errorf ''Configuration parameter %s is mandatory'' [VString ''port'']]\<rparr>) \<and>
   GetRequiredInt64 amd64 ''port'' \<lparr>store = fst (Loads ''{"host":"a"}''), sink = []\<rparr>
     = (Exits 1, \<lparr>store = fst (Loads ''{"host":"a"}''),
                  sink = [Errorf ''Configuration parameter %s is mandatory'' [VString ''port'']]\<rparr>) \<and>
   GetRequiredStringSlice ''port'' \<lparr>store = None, sink = []\<rparr>
     = (Exits 1, \<lparr>store = None,
                  sink = [Errorf ''Configuration parameter %s is mandatory'' [VString ''port'']]\<rparr>)\<close>
proof -
  have l: \<open>fst (Loads ''{"host":"a"}'') = Some [(''host'', VString ''a'')]\<close>
    by code_simp
  have h: "map_index (store \<lparr>store = Some [(''host'', VString ''a'')], sink = []\<rparr>) ''port'' = None"
    by (simp add: map_index_def)
  have n: "map_index (store \<lparr>store = None, sink = []\<rparr>) ''port'' = None"
    by (simp add: map_index_def)
  show ?thesis
    using GetRequired_missing_exits [OF h, of amd64] GetRequired_missing_exits [OF n, of amd64]
    by (simp add: l map_index_def)
qed

subsection \<open>Get and Set\<close>

lemma Set_Some:
  "store s = Some kvs \<Longrightarrow> Set k v s = (Returns (), s\<lparr>store := Some (AList.update k v kvs)\<rparr>)"
  by (simp add: Set_def)

lemma Set_None: "store s = None \<Longrightarrow> Set k v s = (Panics NilMapAssignment, s)"
  by (simp add: Set_def)

lemma map_of_update: "map_of (AList.update k v kvs) = (map_of kvs)(k \<mapsto> v)"
  by (rule update_conv')

text \<open>
  C8 (as amended).  \<^verbatim>\<open>Get\<close> on an absent key returns \<^verbatim>\<open>ErrNoSuchKey\<close>, in
  particular \<^verbatim>\<open>Get("missing")\<close> on an empty store; on a present key it returns
  the stored value as it is and no error.  On every store whose map is not nil,
  \<^verbatim>\<open>Set(k, v)\<close> returns, whether \<open>k\<close> was present or not, and \<^verbatim>\<open>Get(k)\<close> on the
  store it leaves returns \<open>v\<close> and no error.  On the nil map \<^verbatim>\<open>Set\<close> panics and
  leaves the map nil.
\<close>

theorem Get_and_Set:
  "(map_index (store s) key = None \<longrightarrow> Get key s = (Returns (VNil, Some ErrNoSuchKey), s)) \<and>
   Get ''missing'' \<lparr>store = Some [], sink = l\<rparr>
     = (Returns (VNil, Some ErrNoSuchKey), \<lparr>store = Some [], sink = l\<rparr>) \<and>
   (\<forall>val. map_index (store s) key = Some val \<longrightarrow> Get key s = (Returns (val, None), s)) \<and>
   (store s \<noteq> None \<longrightarrow>
      fst (Set k v s) = Returns () \<and>
      Get k (snd (Set k v s)) = (Returns (v, None), snd (Set k v s))) \<and>
   (store s = None \<longrightarrow> Set k v s = (Panics NilMapAssignment, s))"
proof (intro conjI allI impI)
  show "Get key s = (Returns (VNil, Some ErrNoSuchKey), s)" if "map_index (store s) key = None"
    using that by (simp add: Get_def)
  show "Get ''missing'' \<lparr>store = Some [], sink = l\<rparr>
     = (Returns (VNil, Some ErrNoSuchKey), \<lparr>store = Some [], sink = l\<rparr>)"
    by (simp add: Get_def map_index_def)
  show "Get key s = (Returns (val, None), s)" if "map_index (store s) key = Some val" for val
    using that by (simp add: Get_def)
  show "Set k v s = (Panics NilMapAssignment, s)" if "store s = None"
    using that by (rule Set_None)
next
  assume "store s \<noteq> None"
  then obtain kvs where kvs: "store s = Some kvs"
    by auto
  show "fst (Set k v s) = Returns ()"
    by (simp add: Set_Some [OF kvs])
  show "Get k (snd (Set k v s)) = (Returns (v, None), snd (Set k v s))"
    by (simp add: Set_Some [OF kvs] Get_def map_index_def map_of_update)
qed

text \<open>
  A key that is overwritten, a key that is inserted beside another, and the
  empty store.
\<close>

theorem Get_and_Set_witness:
  \<open>Set ''k'' (VString ''v'') \<lparr>store = Some [(''j'', VNil), (''k'', VString ''old'')], sink = []\<rparr>
     = (Returns (), \<lparr>store = Some [(''j'', VNil), (''k'', VString ''v'')], sink = []\<rparr>) \<and>
   Get ''k'' (snd (Set ''k'' (VString ''v'') \<lparr>store = Some [(''j'', VNil), (''k'', VString ''old'')], sink = []\<rparr>))
     = (Returns (VString ''v'', None), \<lparr>store = Some [(''j'', VNil), (''k'', VString ''v'')], sink = []\<rparr>) \<and>
   Get ''k'' \<lparr>store = Some [(''j'', VNil), (''k'', VString ''old'')], sink = []\<rparr>
     = (Returns (VString ''old'', None), \<lparr>store = Some [(''j'', VNil), (''k'', VString ''old'')], sink = []\<rparr>) \<and>
   Get ''k'' (snd (Set ''k'' (VString ''v'') \<lparr>store = Some [(''j'', VNil)], sink = []\<rparr>))
     = (Returns (VString ''v'', None), \<lparr>store = Some [(''j'', VNil), (''k'', VString ''v'')], sink = []\<rparr>) \<and>
   Get ''missing'' \<lparr>store = Some [], sink = []\<rparr>
     = (Returns (VNil, Some ErrNoSuchKey), \<lparr>store = Some [], sink = []\<rparr>) \<and>
   Set ''k'' (VString ''v'') \<lparr>store = None, sink = []\<rparr>
     = (Panics NilMapAssignment, \<lparr>store = None, sink = []\<rparr>)\<close>
proof -
  let ?s = "\<lparr>store = Some [(''j'', VNil), (''k'', VString ''old'')], sink = []\<rparr>"
  let ?t = "\<lparr>store = Some [(''j'', VNil)], sink = []\<rparr>"
  have a: "Set ''k'' (VString ''v'') ?s
     = (Returns (), \<lparr>store = Some [(''j'', VNil), (''k'', VString ''v'')], sink = []\<rparr>)"
    by (simp add: Set_def)
  have b: "snd (Set ''k'' (VString ''v'') ?t)
     = \<lparr>store = Some [(''j'', VNil), (''k'', VString ''v'')], sink = []\<rparr>"
    by (simp add: Set_def)
  show ?thesis
    using Get_and_Set [of ?s "''k''" "[]" "''k''" "VString ''v''"]
      Get_and_Set [of ?t "''missing''" "[]" "''k''" "VString ''v''"]
      Get_and_Set [of "\<lparr>store = None, sink = []\<rparr>" "''missing''" "[]" "''k''" "VString ''v''"]
    by (simp add: a b map_index_def)
qed

text \<open>
  The claim as stated fails on the nil map, which is a store (it is what
  \<^verbatim>\<open>Loads\<close> returns for \<^verbatim>\<open>null\<close>): \<^verbatim>\<open>Set("k", "v")\<close> panics, and a \<^verbatim>\<open>Get("k")\<close> on
  the store it leaves returns \<^verbatim>\<open>ErrNoSuchKey\<close>.
\<close>

theorem Set_nil_map_counterexample:
  "fst (Set ''k'' (VString ''v'') \<lparr>store = None, sink = []\<rparr>) = Panics NilMapAssignment \<and>
   fst (Get ''k'' (snd (Set ''k'' (VString ''v'') \<lparr>store = None, sink = []\<rparr>)))
     = Returns (VNil, Some ErrNoSuchKey)"
  by (simp add: Set_def Get_def map_index_def)

subsection \<open>What changes the mapping\<close>

text \<open>
  C9.  Every reader leaves the mapping as it is, whatever it returns and also
  where it panics or ends the process.  \<^verbatim>\<open>Set(k, v)\<close> leaves every entry other
  than that of \<open>k\<close> as it is, on every store and whatever it does; on a map that
  is not nil the entry of \<open>k\<close> becomes \<open>v\<close>, and the nil map stays nil.
\<close>

theorem readers_keep_store:
  "store (snd (Get key s)) = store s \<and>
   store (snd (GetString key s)) = store s \<and>
   store (snd (GetInt64 A key s)) = store s \<and>
   store (snd (GetUint64 A key s)) = store s \<and>
   store (snd (GetSubConfig key s)) = store s \<and>
   store (snd (GetRequired key s)) = store s \<and>
   store (snd (GetRequiredSubConfig key s)) = store s \<and>
   store (snd (GetRequiredString key s)) = store s \<and>
   store (snd (GetRequiredInt64 A key s)) = store s \<and>
   store (snd (GetRequiredUint64 A key s)) = store s \<and>
   store (snd (GetRequiredStringSlice key s)) = store s \<and>
   store (snd (GetRequiredUint64Slice key s)) = store s \<and>
   store (snd (GetRequiredInt64Slice key s)) = store s \<and>
   store (snd (Dumps s)) = store s \<and>
   store (snd (Debug s)) = store s \<and>
   (\<forall>k. k \<noteq> key \<longrightarrow> map_index (store (snd (Set key val s))) k = map_index (store s) k) \<and>
   (store s \<noteq> None \<longrightarrow> map_index (store (snd (Set key val s))) key = Some val) \<and>
   (store s = None \<longrightarrow> store (snd (Set key val s)) = None)"
proof -
  have req: "store (snd (bind (GetRequired key s) f)) = store s"
    if "\<And>v t. store (snd (f v t)) = store t" for f :: "Value \<Rightarrow> state \<Rightarrow> 'b outcome \<times> state"
    using that by (simp add: GetRequired_cases split: option.splits)
  have 1: "store (snd (Get key s)) = store s"
    by (simp add: Get_store)
  have 2: "store (snd (GetString key s)) = store s"
    by (simp add: GetString_def split: option.splits Value.splits)
  have 3: "store (snd (GetInt64 A key s)) = store s"
    by (simp add: GetInt64_def split: option.splits Value.splits)
  have 4: "store (snd (GetUint64 A key s)) = store s"
    by (simp add: GetUint64_def split: option.splits Value.splits)
  have 5: "store (snd (GetSubConfig key s)) = store s"
    by (simp add: GetSubConfig_def Get_def split: option.splits Value.splits)
  have 6: "store (snd (GetRequired key s)) = store s"
    by (simp add: GetRequired_cases split: option.splits)
  have 7: "store (snd (GetRequiredSubConfig key s)) = store s"
    unfolding GetRequiredSubConfig_def by (rule req) (simp split: Value.splits)
  have 8: "store (snd (GetRequiredString key s)) = store s"
    unfolding GetRequiredString_def by (rule req) (simp split: Value.splits)
  have 9: "store (snd (GetRequiredInt64 A key s)) = store s"
    unfolding GetRequiredInt64_def by (rule req) (simp split: Value.splits)
  have 10: "store (snd (GetRequiredUint64 A key s)) = store s"
    unfolding GetRequiredUint64_def by (rule req) (simp split: Value.splits)
  have 11: "store (snd (GetRequiredStringSlice key s)) = store s"
    unfolding GetRequiredStringSlice_def by (rule req) (simp split: Value.splits)
  have 12: "store (snd (GetRequiredUint64Slice key s)) = store s"
    unfolding GetRequiredUint64Slice_def by (rule req) (simp split: Value.splits)
  have 13: "store (snd (GetRequiredInt64Slice key s)) = store s"
    unfolding GetRequiredInt64Slice_def by (rule req) (simp split: Value.splits)
  have 14: "store (snd (Dumps s)) = store s"
    by (simp add: Dumps_def split: option.splits)
  have 15: "store (snd (Debug s)) = store s"
    by (simp add: Debug_def debug_loop_store)
  have 16: "\<forall>k. k \<noteq> key \<longrightarrow> map_index (store (snd (Set key val s))) k = map_index (store s) k"
    by (cases "store s") (simp_all add: Set_None Set_Some map_index_def map_of_update)
  have 17: "store s \<noteq> None \<longrightarrow> map_index (store (snd (Set key val s))) key = Some val"
    by (cases "store s") (simp_all add: Set_Some map_index_def map_of_update)
  have 18: "store s = None \<longrightarrow> store (snd (Set key val s)) = None"
    by (simp add: Set_None)
  show ?thesis
    using 1 2 3 4 5 6 7 8 9 10 11 12 13 14 15 16 17 18 by blast
qed

text \<open>
  An entry that is overwritten beside two that are kept, an absent key beside
  them, and the readers on the same store.
\<close>

theorem readers_keep_store_witness:
  \<open>snd (Set ''b'' (VBool True) \<lparr>store = Some [(''a'', VNil), (''b'', VBool False), (''c'', VString ''x'')], sink = []\<rparr>)
     = \<lparr>store = Some [(''a'', VNil), (''b'', VBool True), (''c'', VString ''x'')], sink = []\<rparr> \<and>
   map_index (store (snd (Set ''b'' (VBool True)
       \<lparr>store = Some [(''a'', VNil), (''b'', VBool False), (''c'', VString ''x'')], sink = []\<rparr>))) ''b''
     = Some (VBool True) \<and>
   map_index (store (snd (Set ''b'' (VBool True)
       \<lparr>store = Some [(''a'', VNil), (''b'', VBool False), (''c'', VString ''x'')], sink = []\<rparr>))) ''a''
     = Some VNil \<and>
   map_index (store (snd (Set ''b'' (VBool True)
       \<lparr>store = Some [(''a'', VNil), (''b'', VBool False), (''c'', VString ''x'')], sink = []\<rparr>))) ''c''
     = Some (VString ''x'') \<and>
   map_index (store (snd (Set ''b'' (VBool True)
       \<lparr>store = Some [(''a'', VNil), (''b'', VBool False), (''c'', VString ''x'')], sink = []\<rparr>))) ''d''
     = None \<and>
   store (snd (Set ''b'' (VBool True) \<lparr>store = None, sink = []\<rparr>)) = None \<and>
   store (snd (Debug \<lparr>store = Some [(''a'', VNil), (''b'', VBool False), (''c'', VString ''x'')], sink = []\<rparr>))
     = Some [(''a'', VNil), (''b'', VBool False), (''c'', VString ''x'')] \<and>
   store (snd (Dumps \<lparr>store = Some [(''a'', VNil), (''b'', VBool False), (''c'', VString ''x'')], sink = []\<rparr>))
     = Some [(''a'', VNil), (''b'', VBool False), (''c'', VString ''x'')] \<and>
   store (snd (GetRequired ''d'' \<lparr>store = Some [(''a'', VNil), (''b'', VBool False), (''c'', VString ''x'')], sink = []\<rparr>))
     = Some [(''a'', VNil), (''b'', VBool False), (''c'', VString ''x'')]\<close>
proof -
  let ?s = "\<lparr>store = Some [(''a'', VNil), (''b'', VBool False), (''c'', VString ''x'')], sink = []\<rparr>"
  have st: "snd (Set ''b'' (VBool True) ?s)
     = \<lparr>store = Some [(''a'', VNil), (''b'', VBool True), (''c'', VString ''x'')], sink = []\<rparr>"
    by (simp add: Set_def)
  have a: "map_index (store (snd (Set ''b'' (VBool True) ?s))) ''a'' = map_index (store ?s) ''a''"
    and c: "map_index (store (snd (Set ''b'' (VBool True) ?s))) ''c'' = map_index (store ?s) ''c''"
    and d: "map_index (store (snd (Set ''b'' (VBool True) ?s))) ''d'' = map_index (store ?s) ''d''"
    and b: "map_index (store (snd (Set ''b'' (VBool True) ?s))) ''b'' = Some (VBool True)"
    using readers_keep_store [of "''b''" ?s amd64 "VBool True"] by simp_all
  have n: "store (snd (Set ''b'' (VBool True) \<lparr>store = None, sink = []\<rparr>)) = None"
    using readers_keep_store [of "''b''" "\<lparr>store = None, sink = []\<rparr>" amd64 "VBool True"] by simp
  have r: "store (snd (Debug ?s)) = store ?s" "store (snd (Dumps ?s)) = store ?s"
    "store (snd (GetRequired ''d'' ?s)) = store ?s"
    using readers_keep_store [of "''d''" ?s amd64 "VBool True"] by simp_all
  have m: "map_index (store ?s) ''a'' = Some VNil" "map_index (store ?s) ''c'' = Some (VString ''x'')"
    "map_index (store ?s) ''d'' = None"
    by (simp_all add: map_index_def)
  show ?thesis
    unfolding a b c d n r m using st by simp
qed

subsection \<open>The buffer null\<close>

text \<open>
  C10.  \<^verbatim>\<open>Loads\<close> accepts the buffer \<^verbatim>\<open>null\<close> without error and returns the nil
  \<^verbatim>\<open>Config\<close>: on it \<^verbatim>\<open>Get\<close> returns \<^verbatim>\<open>ErrNoSuchKey\<close> for every key, and \<^verbatim>\<open>Set\<close>
  panics with an assignment to an entry in a nil map and inserts nothing.
\<close>

theorem Loads_null_nil_store:
  \<open>Loads ''null'' = (None, None) \<and>
   Get key \<lparr>store = fst (Loads ''null''), sink = l\<rparr>
     = (Returns (VNil, Some ErrNoSuchKey), \<lparr>store = fst (Loads ''null''), sink = l\<rparr>) \<and>
   Set key val \<lparr>store = fst (Loads ''null''), sink = l\<rparr>
     = (Panics NilMapAssignment, \<lparr>store = fst (Loads ''null''), sink = l\<rparr>)\<close>
proof -
  have n: \<open>Loads ''null'' = (None, None)\<close>
    by code_simp
  show ?thesis
    by (simp add: n Get_def Set_def map_index_def)
qed

theorem Loads_null_nil_store_witness:
  \<open>Loads ''null'' = (None, None) \<and>
   Get ''k'' \<lparr>store = fst (Loads ''null''), sink = []\<rparr>
     = (Returns (VNil, Some ErrNoSuchKey), \<lparr>store = fst (Loads ''null''), sink = []\<rparr>) \<and>
   Set ''k'' (VString ''v'') \<lparr>store = fst (Loads ''null''), sink = []\<rparr>
     = (Panics NilMapAssignment, \<lparr>store = fst (Loads ''null''), sink = []\<rparr>)\<close>
  by (rule Loads_null_nil_store)


end
